theory Spec2Isabelle
  imports Main "HOL-Library.Sublist"
begin

section \<open>Strings\<close>

text \<open>
  A Go string is a sequence of bytes, here a \<^typ>\<open>string\<close>. The functions of package
  \<^verbatim>\<open>strings\<close> that the codec calls are written out below.
\<close>

definition HasPrefix :: "string \<Rightarrow> string \<Rightarrow> bool" where
  "HasPrefix s p \<longleftrightarrow> prefix p s"

definition TrimPrefix :: "string \<Rightarrow> string \<Rightarrow> string" where
  "TrimPrefix s p = (if HasPrefix s p then drop (length p) s else s)"

definition TrimSuffix :: "string \<Rightarrow> string \<Rightarrow> string" where
  "TrimSuffix s p = (if suffix p s then take (length s - length p) s else s)"

text \<open>\<^verbatim>\<open>strings.Index\<close>: the position of the first occurrence, or -1.\<close>

fun Index :: "string \<Rightarrow> string \<Rightarrow> int" where
  "Index [] substr = (if substr = [] then 0 else - 1)"
| "Index (c # cs) substr =
     (if prefix substr (c # cs) then 0
      else (let i = Index cs substr in if i < 0 then - 1 else i + 1))"

text \<open>
  \<^verbatim>\<open>strings.Split\<close> with a separator of one byte, the only way the codec calls it.
  The result is never empty: a string without the separator is one part.
\<close>

fun Split :: "string \<Rightarrow> char \<Rightarrow> string list" where
  "Split [] sep = [[]]"
| "Split (c # cs) sep =
     (if c = sep then [] # Split cs sep
      else (case Split cs sep of [] \<Rightarrow> [[c]] | p # ps \<Rightarrow> (c # p) # ps))"

text \<open>
  Slice expressions \<^verbatim>\<open>s[:i]\<close> and \<^verbatim>\<open>s[i:]\<close> panic when the index is out of range;
  \<open>None\<close> is the panic.
\<close>

definition sliceTo :: "string \<Rightarrow> int \<Rightarrow> string option" where
  "sliceTo s i = (if 0 \<le> i \<and> i \<le> int (length s) then Some (take (nat i) s) else None)"

definition sliceFrom :: "string \<Rightarrow> int \<Rightarrow> string option" where
  "sliceFrom s i = (if 0 \<le> i \<and> i \<le> int (length s) then Some (drop (nat i) s) else None)"

text \<open>
  \<^verbatim>\<open>strings.TrimSpace\<close> removes the leading and then the trailing white space runes,
  decoding the string as UTF-8. \<open>spaceRunes\<close> lists the UTF-8 encodings of the code
  points \<^verbatim>\<open>unicode.IsSpace\<close> accepts: U+0009 to U+000D, U+0020, U+0085, U+00A0,
  U+1680, U+2000 to U+200A, U+2028, U+2029, U+202F, U+205F and U+3000. A byte sequence
  that is not one of these decodes to another rune or to the error rune, neither of
  them white space.
\<close>

definition spaceRunes :: "string list" where
  "spaceRunes =
    [[CHR 0x09], [CHR 0x0A], [CHR 0x0B], [CHR 0x0C], [CHR 0x0D], [CHR 0x20],
     [CHR 0xC2, CHR 0x85], [CHR 0xC2, CHR 0xA0],
     [CHR 0xE1, CHR 0x9A, CHR 0x80],
     [CHR 0xE2, CHR 0x80, CHR 0x80], [CHR 0xE2, CHR 0x80, CHR 0x81],
     [CHR 0xE2, CHR 0x80, CHR 0x82], [CHR 0xE2, CHR 0x80, CHR 0x83],
     [CHR 0xE2, CHR 0x80, CHR 0x84], [CHR 0xE2, CHR 0x80, CHR 0x85],
     [CHR 0xE2, CHR 0x80, CHR 0x86], [CHR 0xE2, CHR 0x80, CHR 0x87],
     [CHR 0xE2, CHR 0x80, CHR 0x88], [CHR 0xE2, CHR 0x80, CHR 0x89],
     [CHR 0xE2, CHR 0x80, CHR 0x8A],
     [CHR 0xE2, CHR 0x80, CHR 0xA8], [CHR 0xE2, CHR 0x80, CHR 0xA9],
     [CHR 0xE2, CHR 0x80, CHR 0xAF],
     [CHR 0xE2, CHR 0x81, CHR 0x9F],
     [CHR 0xE3, CHR 0x80, CHR 0x80]]"

definition runeWidth :: "string list \<Rightarrow> string \<Rightarrow> nat" where
  "runeWidth rs s = (case find (\<lambda>r. prefix r s) rs of None \<Rightarrow> 0 | Some r \<Rightarrow> length r)"

fun trimLeading :: "string list \<Rightarrow> string \<Rightarrow> string" where
  "trimLeading rs [] = []"
| "trimLeading rs (c # cs) =
     (if runeWidth rs (c # cs) = 0 then c # cs
      else trimLeading rs (drop (runeWidth rs (c # cs) - 1) cs))"

definition TrimLeftSpace :: "string \<Rightarrow> string" where
  "TrimLeftSpace s = trimLeading spaceRunes s"

definition TrimRightSpace :: "string \<Rightarrow> string" where
  "TrimRightSpace s = rev (trimLeading (map rev spaceRunes) (rev s))"

definition TrimSpace :: "string \<Rightarrow> string" where
  "TrimSpace s = TrimRightSpace (TrimLeftSpace s)"

section \<open>Prefix registry\<close>

text \<open>
  The two package-level maps of \<^verbatim>\<open>registry.go\<close>, as one state value. Every function
  of the file holds the lock for its whole body, so each is one step on this state. A
  lookup of a missing key in a Go map gives the empty string.
\<close>

record Registry =
  prefixToRig :: "string \<rightharpoonup> string"
  rigToPrefix :: "string \<rightharpoonup> string"

definition ClearRegistry :: "Registry" where
  "ClearRegistry = \<lparr>prefixToRig = Map.empty, rigToPrefix = Map.empty\<rparr>"

definition RegisterPrefix :: "string \<Rightarrow> string \<Rightarrow> Registry \<Rightarrow> Registry" where
  "RegisterPrefix pfx rigName reg =
     \<lparr>prefixToRig = (prefixToRig reg)(pfx \<mapsto> rigName),
      rigToPrefix = (rigToPrefix reg)(rigName \<mapsto> pfx)\<rparr>"

definition PrefixForRig :: "Registry \<Rightarrow> string \<Rightarrow> string" where
  "PrefixForRig reg rigName = (case rigToPrefix reg rigName of None \<Rightarrow> '''' | Some p \<Rightarrow> p)"

definition RigForPrefix :: "Registry \<Rightarrow> string \<Rightarrow> string" where
  "RigForPrefix reg pfx = (case prefixToRig reg pfx of None \<Rightarrow> '''' | Some r \<Rightarrow> r)"

definition IsKnownPrefix :: "Registry \<Rightarrow> string \<Rightarrow> bool" where
  "IsKnownPrefix reg pfx \<longleftrightarrow> prefixToRig reg pfx \<noteq> None"

text \<open>The registry after a list of \<^verbatim>\<open>RegisterPrefix(prefix, rigName)\<close> calls, first call first.\<close>

definition registerAll :: "(string \<times> string) list \<Rightarrow> Registry \<Rightarrow> Registry" where
  "registerAll calls reg = foldl (\<lambda>r (pfx, rigName). RegisterPrefix pfx rigName r) reg calls"

text \<open>The registry that \<^verbatim>\<open>TestParseSessionName\<close> sets up.\<close>

definition testRegistry :: Registry where
  "testRegistry =
     registerAll [(''gt'', ''gastown''), (''bd'', ''beads''), (''hop'', ''hop'')] ClearRegistry"

text \<open>
  A list of registrations in which no prefix comes with two different rig names and no rig
  name with two different prefixes (the same pair may be registered again).
\<close>

definition compatible :: "(string \<times> string) list \<Rightarrow> bool" where
  "compatible calls \<longleftrightarrow>
     (\<forall>(p, r) \<in> set calls. \<forall>(p', r') \<in> set calls. (p = p') = (r = r'))"

section \<open>Agent identity\<close>

type_synonym Role = string

definition RoleMayor :: Role where "RoleMayor = ''mayor''"
definition RoleDeacon :: Role where "RoleDeacon = ''deacon''"
definition RoleWitness :: Role where "RoleWitness = ''witness''"
definition RoleRefinery :: Role where "RoleRefinery = ''refinery''"
definition RoleCrew :: Role where "RoleCrew = ''crew''"
definition RolePolecat :: Role where "RolePolecat = ''polecat''"

record AgentIdentity =
  Role :: Role
  Rig :: string
  Name :: string
  Prefix :: string

datatype ParseError =
    EmptyAddress
  | OverseerNoSession
  | InvalidAddress string
  | UnknownHqRole string
  | NoSeparator string
  | EmptyCrewName string
  | EmptyNameAfterPrefix string
  | Panic

text \<open>
  Modelled from the spec: the constant \<^verbatim>\<open>HQPrefix\<close> and the session-name builders
  \<^verbatim>\<open>MayorSessionName\<close>, \<^verbatim>\<open>DeaconSessionName\<close>, \<^verbatim>\<open>BootSessionName\<close>,
  \<^verbatim>\<open>WitnessSessionName\<close>, \<^verbatim>\<open>RefinerySessionName\<close>, \<^verbatim>\<open>CrewSessionName\<close> and
  \<^verbatim>\<open>PolecatSessionName\<close> are called by the codec and declared elsewhere. The spec
  gives the town prefix as \<^verbatim>\<open>"hq-"\<close>, fixed strings for the town roles, and
  \<^verbatim>\<open>prefix-witness\<close>, \<^verbatim>\<open>prefix-refinery\<close>, \<^verbatim>\<open>prefix-crew-name\<close>, \<^verbatim>\<open>prefix-name\<close>
  for the rig roles; the table of \<^verbatim>\<open>TestAgentIdentity_SessionName\<close> has the same
  strings.
\<close>

definition HQPrefix :: string where "HQPrefix = ''hq-''"
definition MayorSessionName :: string where "MayorSessionName = HQPrefix @ ''mayor''"
definition DeaconSessionName :: string where "DeaconSessionName = HQPrefix @ ''deacon''"
definition BootSessionName :: string where "BootSessionName = HQPrefix @ ''boot''"

definition WitnessSessionName :: "string \<Rightarrow> string" where
  "WitnessSessionName rigPrefix = rigPrefix @ ''-witness''"

definition RefinerySessionName :: "string \<Rightarrow> string" where
  "RefinerySessionName rigPrefix = rigPrefix @ ''-refinery''"

definition CrewSessionName :: "string \<Rightarrow> string \<Rightarrow> string" where
  "CrewSessionName rigPrefix name = rigPrefix @ ''-crew-'' @ name"

definition PolecatSessionName :: "string \<Rightarrow> string \<Rightarrow> string" where
  "PolecatSessionName rigPrefix name = rigPrefix @ ''-'' @ name"

definition ParseAddress :: "Registry \<Rightarrow> string \<Rightarrow> ParseError + AgentIdentity" where
  "ParseAddress reg address0 =
     (let address = TrimSpace address0 in
      if address = '''' then Inl EmptyAddress
      else if address = ''mayor'' \<or> address = ''mayor/''
        then Inr \<lparr>Role = RoleMayor, Rig = '''', Name = '''', Prefix = ''''\<rparr>
      else if address = ''deacon'' \<or> address = ''deacon/''
        then Inr \<lparr>Role = RoleDeacon, Rig = '''', Name = '''', Prefix = ''''\<rparr>
      else if address = ''overseer'' then Inl OverseerNoSession
      else
        (let address = TrimSuffix address ''/'';
             parts = Split address (CHR ''/'')
         in if length parts < 2 then Inl (InvalidAddress address)
            else
              (let rig = parts ! 0;
                   pfx = PrefixForRig reg rig
               in if length parts = 2 then
                    (let name = parts ! 1
                     in if name = ''witness''
                          then Inr \<lparr>Role = RoleWitness, Rig = rig, Name = '''', Prefix = pfx\<rparr>
                        else if name = ''refinery''
                          then Inr \<lparr>Role = RoleRefinery, Rig = rig, Name = '''', Prefix = pfx\<rparr>
                        else if name = ''crew'' \<or> name = ''polecats''
                          then Inl (InvalidAddress address)
                        else Inr \<lparr>Role = RolePolecat, Rig = rig, Name = name, Prefix = pfx\<rparr>)
                  else if length parts = 3 then
                    (let role = parts ! 1;
                         name = parts ! 2
                     in if role = ''crew''
                          then Inr \<lparr>Role = RoleCrew, Rig = rig, Name = name, Prefix = pfx\<rparr>
                        else if role = ''polecats''
                          then Inr \<lparr>Role = RolePolecat, Rig = rig, Name = name, Prefix = pfx\<rparr>
                        else Inl (InvalidAddress address))
                  else Inl (InvalidAddress address))))"

text \<open>The rig-level half of \<^verbatim>\<open>ParseSessionName\<close>, after the two slices have been taken.\<close>

definition parseRest :: "Registry \<Rightarrow> string \<Rightarrow> string \<Rightarrow> string \<Rightarrow> ParseError + AgentIdentity" where
  "parseRest reg session pfx rest =
     (let rigName = RigForPrefix reg pfx in
      if rest = ''witness''
        then Inr \<lparr>Role = RoleWitness, Rig = rigName, Name = '''', Prefix = pfx\<rparr>
      else if rest = ''refinery''
        then Inr \<lparr>Role = RoleRefinery, Rig = rigName, Name = '''', Prefix = pfx\<rparr>
      else if rest = ''boot''
        then Inr \<lparr>Role = RoleDeacon, Rig = '''', Name = ''boot'', Prefix = pfx\<rparr>
      else if HasPrefix rest ''crew-'' then
        (case sliceFrom rest 5 of
           None \<Rightarrow> Inl Panic
         | Some name \<Rightarrow>
             if name = '''' then Inl (EmptyCrewName session)
             else Inr \<lparr>Role = RoleCrew, Rig = rigName, Name = name, Prefix = pfx\<rparr>)
      else if rest = '''' then Inl (EmptyNameAfterPrefix session)
      else Inr \<lparr>Role = RolePolecat, Rig = rigName, Name = rest, Prefix = pfx\<rparr>)"

definition ParseSessionName :: "Registry \<Rightarrow> string \<Rightarrow> ParseError + AgentIdentity" where
  "ParseSessionName reg session =
     (if HasPrefix session HQPrefix then
        (let sfx = TrimPrefix session HQPrefix in
         if sfx = ''mayor''
           then Inr \<lparr>Role = RoleMayor, Rig = '''', Name = '''', Prefix = ''''\<rparr>
         else if sfx = ''deacon''
           then Inr \<lparr>Role = RoleDeacon, Rig = '''', Name = '''', Prefix = ''''\<rparr>
         else if sfx = ''boot''
           then Inr \<lparr>Role = RoleDeacon, Rig = '''', Name = ''boot'', Prefix = ''''\<rparr>
         else if sfx = ''overseer''
           then Inr \<lparr>Role = RoleMayor, Rig = '''', Name = ''overseer'', Prefix = ''''\<rparr>
         else Inl (UnknownHqRole session))
      else
        (let idx = Index session ''-'' in
         if idx \<le> 0 \<or> idx = int (length session) - 1 then Inl (NoSeparator session)
         else
           (case sliceTo session idx of
              None \<Rightarrow> Inl Panic
            | Some pfx \<Rightarrow>
                (case sliceFrom session (idx + 1) of
                   None \<Rightarrow> Inl Panic
                 | Some rest \<Rightarrow> parseRest reg session pfx rest))))"

definition rigPrefix :: "Registry \<Rightarrow> AgentIdentity \<Rightarrow> string" where
  "rigPrefix reg a =
     (if Prefix a \<noteq> '''' then Prefix a
      else if Rig a \<noteq> '''' \<and> PrefixForRig reg (Rig a) \<noteq> '''' then PrefixForRig reg (Rig a)
      else '''')"

definition SessionName :: "Registry \<Rightarrow> AgentIdentity \<Rightarrow> string" where
  "SessionName reg a =
     (if Role a = RoleMayor then MayorSessionName
      else if Role a = RoleDeacon then
        (if Name a = ''boot'' then BootSessionName else DeaconSessionName)
      else if Role a = RoleWitness then WitnessSessionName (rigPrefix reg a)
      else if Role a = RoleRefinery then RefinerySessionName (rigPrefix reg a)
      else if Role a = RoleCrew then CrewSessionName (rigPrefix reg a) (Name a)
      else if Role a = RolePolecat then PolecatSessionName (rigPrefix reg a) (Name a)
      else '''')"

definition Address :: "AgentIdentity \<Rightarrow> string" where
  "Address a =
     (if Role a = RoleMayor then ''mayor''
      else if Role a = RoleDeacon then ''deacon''
      else if Role a = RoleWitness then Rig a @ ''/witness''
      else if Role a = RoleRefinery then Rig a @ ''/refinery''
      else if Role a = RoleCrew then Rig a @ ''/crew/'' @ Name a
      else if Role a = RolePolecat then Rig a @ ''/polecats/'' @ Name a
      else '''')"

section \<open>Merge slot\<close>

text \<open>
  The engineer reaches the merge slot through three function values,
  \<^verbatim>\<open>mergeSlotEnsureExists\<close>, \<^verbatim>\<open>mergeSlotAcquire\<close> and \<^verbatim>\<open>mergeSlotRelease\<close>. The
  closures that \<^verbatim>\<open>TestAcquireMainPushSlot_ConcurrentSingleWriter\<close> installs for them
  follow the state machine of the spec (Free, Held(holder)) without the wait list, and
  they are what is modelled here. The slot is one string variable \<^verbatim>\<open>currentHolder\<close>
  guarded by a mutex; the empty string stands for a slot nobody holds. Both closures run
  entirely under the mutex, so each call is one atomic step on that variable. The
  functions below take the variable and return its new value next to what the closure
  returns.
\<close>

record MergeSlotStatus =
  ID :: string
  Available :: bool
  Holder :: string

datatype SlotError = HolderMismatch string string

definition mergeSlotEnsureExists :: "string" where
  "mergeSlotEnsureExists = ''merge-slot''"

definition mergeSlotAcquire :: "string \<Rightarrow> bool \<Rightarrow> string \<Rightarrow> MergeSlotStatus \<times> string" where
  "mergeSlotAcquire holder addWaiter currentHolder =
     (if currentHolder = ''''
      then (\<lparr>ID = ''merge-slot'', Available = True, Holder = holder\<rparr>, holder)
      else (\<lparr>ID = ''merge-slot'', Available = False, Holder = currentHolder\<rparr>, currentHolder))"

definition mergeSlotRelease :: "string \<Rightarrow> string \<Rightarrow> (SlotError + unit) \<times> string" where
  "mergeSlotRelease holder currentHolder =
     (if currentHolder \<noteq> holder
      then (Inl (HolderMismatch currentHolder holder), currentHolder)
      else (Inr (), ''''))"

text \<open>The two states of the slot, read off the variable.\<close>

definition Free :: "string \<Rightarrow> bool" where
  "Free currentHolder \<longleftrightarrow> currentHolder = ''''"

definition Held :: "string \<Rightarrow> string \<Rightarrow> bool" where
  "Held h currentHolder \<longleftrightarrow> currentHolder = h \<and> h \<noteq> ''''"

text \<open>
  Calls as data, for talking about sequences of calls. \<open>call\<close> runs one closure on the
  variable; \<open>runCalls\<close> runs a list of calls in order and collects what each returned.
\<close>

datatype SlotOp = Acquire string bool | Release string

datatype Outcome = Acquired MergeSlotStatus | Released "SlotError + unit"

fun call :: "SlotOp \<Rightarrow> string \<Rightarrow> Outcome \<times> string" where
  "call (Acquire holder addWaiter) currentHolder =
     (Acquired (fst (mergeSlotAcquire holder addWaiter currentHolder)),
      snd (mergeSlotAcquire holder addWaiter currentHolder))"
| "call (Release holder) currentHolder =
     (Released (fst (mergeSlotRelease holder currentHolder)),
      snd (mergeSlotRelease holder currentHolder))"

fun runCalls :: "SlotOp list \<Rightarrow> string \<Rightarrow> Outcome list \<times> string" where
  "runCalls [] s = ([], s)"
| "runCalls (c # cs) s =
     (let (out, s') = call c s; (outs, s'') = runCalls cs s' in (out # outs, s''))"

text \<open>
  The live holder tokens after a sequence of calls: a token becomes live when an Acquire
  answers available=true for it and stops being live when a Release of that token
  succeeds. This list is not in the program; it records what the callers were told.
\<close>

fun liveStep :: "string \<times> string list \<Rightarrow> SlotOp \<Rightarrow> string \<times> string list" where
  "liveStep (s, live) (Acquire holder addWaiter) =
     (snd (mergeSlotAcquire holder addWaiter s),
      if Available (fst (mergeSlotAcquire holder addWaiter s)) then holder # live else live)"
| "liveStep (s, live) (Release holder) =
     (snd (mergeSlotRelease holder s),
      case fst (mergeSlotRelease holder s) of Inr _ \<Rightarrow> remove1 holder live | Inl _ \<Rightarrow> live)"

definition liveAfter :: "SlotOp list \<Rightarrow> string \<times> string list" where
  "liveAfter ops = foldl liveStep ('''', []) ops"

fun tokenOp :: "SlotOp \<Rightarrow> bool" where
  "tokenOp (Acquire holder addWaiter) \<longleftrightarrow> holder \<noteq> ''''"
| "tokenOp (Release holder) \<longleftrightarrow> True"

definition oneOrNone :: "string \<times> string list \<Rightarrow> bool" where
  "oneOrNone w \<longleftrightarrow> (if fst w = '''' then snd w = [] else snd w = [fst w])"

section \<open>Acquire\<close>

lemma acquire_free:
  "Free s \<Longrightarrow> mergeSlotAcquire holder w s =
     (\<lparr>ID = ''merge-slot'', Available = True, Holder = holder\<rparr>, holder)"
  by (simp add: Free_def mergeSlotAcquire_def)

lemma acquire_held:
  "Held h s \<Longrightarrow> mergeSlotAcquire holder w s =
     (\<lparr>ID = ''merge-slot'', Available = False, Holder = h\<rparr>, s)"
  by (simp add: Held_def mergeSlotAcquire_def)

lemma liveStep_oneOrNone:
  "oneOrNone w \<Longrightarrow> tokenOp c \<Longrightarrow> oneOrNone (liveStep w c)"
  by (cases w; cases c)
     (auto simp: oneOrNone_def mergeSlotAcquire_def mergeSlotRelease_def split: if_splits)

lemma liveAfter_oneOrNone:
  "\<forall>c \<in> set ops. tokenOp c \<Longrightarrow> oneOrNone (liveAfter ops)"
proof (induction ops rule: rev_induct)
  case Nil
  show ?case by (simp add: liveAfter_def oneOrNone_def)
next
  case (snoc c ops)
  then have "oneOrNone (liveAfter ops)" and "tokenOp c"
    by simp_all
  then show ?case
    by (simp add: liveAfter_def liveStep_oneOrNone)
qed

text \<open>
  C2. A holder token is a non-empty string: the empty string is what the variable holds
  when nobody holds the slot. Acquire with a holder token on a Free slot answers
  available=true with that holder and leaves the slot Held(holder); Acquire on a slot
  Held by h with any other token answers available=false with holder h and leaves the
  variable as it was. Consequently, after any sequence of calls from the Free slot whose
  Acquire calls present holder tokens, the live tokens are none when the slot is Free
  and exactly the current holder when it is Held.
\<close>

theorem acquire_slot:
  "(Free s \<and> holder \<noteq> '''' \<longrightarrow>
      fst (mergeSlotAcquire holder w s) =
        \<lparr>ID = ''merge-slot'', Available = True, Holder = holder\<rparr> \<and>
      Held holder (snd (mergeSlotAcquire holder w s))) \<and>
   (Held h t \<and> holder \<noteq> h \<longrightarrow>
      fst (mergeSlotAcquire holder w t) =
        \<lparr>ID = ''merge-slot'', Available = False, Holder = h\<rparr> \<and>
      snd (mergeSlotAcquire holder w t) = t) \<and>
   ((\<forall>c \<in> set ops. tokenOp c) \<longrightarrow>
      (Free (fst (liveAfter ops)) \<and> snd (liveAfter ops) = []) \<or>
      (\<exists>h'. Held h' (fst (liveAfter ops)) \<and> snd (liveAfter ops) = [h']))"
proof (intro conjI impI)
  assume "Free s \<and> holder \<noteq> ''''"
  then have free: "Free s" and ne: "holder \<noteq> ''''"
    by simp_all
  show "fst (mergeSlotAcquire holder w s) =
          \<lparr>ID = ''merge-slot'', Available = True, Holder = holder\<rparr>"
    by (simp add: acquire_free [OF free])
  show "Held holder (snd (mergeSlotAcquire holder w s))"
    using ne by (simp add: acquire_free [OF free] Held_def)
next
  assume "Held h t \<and> holder \<noteq> h"
  then have held: "Held h t" ..
  show "fst (mergeSlotAcquire holder w t) =
          \<lparr>ID = ''merge-slot'', Available = False, Holder = h\<rparr>"
    by (simp add: acquire_held [OF held])
  show "snd (mergeSlotAcquire holder w t) = t"
    by (simp add: acquire_held [OF held])
next
  assume "\<forall>c \<in> set ops. tokenOp c"
  then have "oneOrNone (liveAfter ops)"
    by (rule liveAfter_oneOrNone)
  then show "(Free (fst (liveAfter ops)) \<and> snd (liveAfter ops) = []) \<or>
        (\<exists>h'. Held h' (fst (liveAfter ops)) \<and> snd (liveAfter ops) = [h'])"
    by (auto simp: oneOrNone_def Free_def Held_def split: if_splits)
qed

theorem acquire_slot_witness:
  "Free '''' \<and> ''alice'' \<noteq> '''' \<and> Held ''bob'' ''bob'' \<and> ''alice'' \<noteq> ''bob'' \<and>
   tokenOp (Acquire ''alice'' False) \<and> tokenOp (Acquire ''bob'' True) \<and>
   tokenOp (Release ''alice'') \<and>
   fst (mergeSlotAcquire ''alice'' False '''') =
     \<lparr>ID = ''merge-slot'', Available = True, Holder = ''alice''\<rparr> \<and>
   Held ''alice'' (snd (mergeSlotAcquire ''alice'' False '''')) \<and>
   fst (mergeSlotAcquire ''alice'' False ''bob'') =
     \<lparr>ID = ''merge-slot'', Available = False, Holder = ''bob''\<rparr> \<and>
   snd (mergeSlotAcquire ''alice'' False ''bob'') = ''bob'' \<and>
   liveAfter [Acquire ''alice'' False, Acquire ''bob'' True, Release ''alice''] = ('''', [])"
proof -
  have free: "Free '''' \<and> ''alice'' \<noteq> ''''" by (simp add: Free_def)
  have held: "Held ''bob'' ''bob'' \<and> ''alice'' \<noteq> ''bob''" by (simp add: Held_def)
  have toks: "\<forall>c \<in> set [Acquire ''alice'' False, Acquire ''bob'' True, Release ''alice''].
      tokenOp c" by simp
  have live: "liveAfter [Acquire ''alice'' False, Acquire ''bob'' True, Release ''alice'']
      = ('''', [])"
    by (simp add: liveAfter_def mergeSlotAcquire_def mergeSlotRelease_def)
  from acquire_slot [of "''''" "''alice''" False "''bob''" "''bob''"
      "[Acquire ''alice'' False, Acquire ''bob'' True, Release ''alice'']"]
    free held toks live
  show ?thesis by simp
qed

section \<open>Release\<close>

text \<open>
  C3. In state Held(h), Release(h') with a token h' other than h fails with the
  holder-mismatch error (carrying the current holder and the presented token) and leaves
  the slot Held(h); Release(h) succeeds and leaves the slot Free.
\<close>

theorem release_held:
  "Held h s \<Longrightarrow>
     (h' \<noteq> h \<longrightarrow>
        fst (mergeSlotRelease h' s) = Inl (HolderMismatch h h') \<and>
        snd (mergeSlotRelease h' s) = s \<and> Held h (snd (mergeSlotRelease h' s))) \<and>
     fst (mergeSlotRelease h s) = Inr () \<and> Free (snd (mergeSlotRelease h s))"
  by (auto simp: Held_def Free_def mergeSlotRelease_def)

theorem release_held_witness:
  "Held ''alice'' ''alice'' \<and> ''bob'' \<noteq> ''alice'' \<and>
   fst (mergeSlotRelease ''bob'' ''alice'') = Inl (HolderMismatch ''alice'' ''bob'') \<and>
   snd (mergeSlotRelease ''bob'' ''alice'') = ''alice'' \<and>
   fst (mergeSlotRelease ''alice'' ''alice'') = Inr () \<and>
   Free (snd (mergeSlotRelease ''alice'' ''alice''))"
proof -
  have held: "Held ''alice'' ''alice''"
    by (simp add: Held_def)
  have neq: "''bob'' \<noteq> ''alice''"
    by simp
  from release_held [OF held, of "''bob''"] held neq show ?thesis
    by blast
qed

section \<open>Two concurrent acquirers\<close>

text \<open>
  Each closure locks the mutex on entry and unlocks it on return, so two concurrent
  Acquire calls take effect one after the other, in one of the two orders. \<open>runCalls\<close>
  on either order is what the two goroutines can observe.
\<close>

lemma runCalls_two_acquires:
  "x \<noteq> '''' \<Longrightarrow>
   runCalls [Acquire x wx, Acquire y wy] '''' =
     ([Acquired \<lparr>ID = ''merge-slot'', Available = True, Holder = x\<rparr>,
       Acquired \<lparr>ID = ''merge-slot'', Available = False, Holder = x\<rparr>], x)"
  by (simp add: mergeSlotAcquire_def)

text \<open>
  C6. Two concurrent Acquire calls on a Free slot by holders with tokens a and b (holder
  tokens are non-empty, the empty string being the variable's value for a slot nobody
  holds), in either order of taking the mutex: the first answers available=true and
  becomes the winner, the second answers available=false and reports the winner, and
  the slot is Held by the winner. From there the winner's Release succeeds and frees the
  slot, and Release with any other token fails with holder-mismatch and leaves the slot
  as it is.
\<close>

theorem concurrent_acquire:
  assumes "a \<noteq> ''''" and "b \<noteq> ''''" and "Free s"
    and "ops = [Acquire a wa, Acquire b wb] \<or> ops = [Acquire b wb, Acquire a wa]"
  shows "\<exists>winner. winner \<in> {a, b} \<and>
     runCalls ops s =
       ([Acquired \<lparr>ID = ''merge-slot'', Available = True, Holder = winner\<rparr>,
         Acquired \<lparr>ID = ''merge-slot'', Available = False, Holder = winner\<rparr>], winner) \<and>
     Held winner (snd (runCalls ops s)) \<and>
     mergeSlotRelease winner (snd (runCalls ops s)) = (Inr (), '''') \<and>
     (\<forall>c. c \<noteq> winner \<longrightarrow>
        mergeSlotRelease c (snd (runCalls ops s)) =
          (Inl (HolderMismatch winner c), snd (runCalls ops s)))"
proof -
  from assms(3) have s: "s = ''''"
    by (simp add: Free_def)
  from assms(4) show ?thesis
  proof
    assume ops: "ops = [Acquire a wa, Acquire b wb]"
    have "runCalls ops s =
       ([Acquired \<lparr>ID = ''merge-slot'', Available = True, Holder = a\<rparr>,
         Acquired \<lparr>ID = ''merge-slot'', Available = False, Holder = a\<rparr>], a)"
      unfolding ops s by (rule runCalls_two_acquires [OF assms(1)])
    with assms(1) show ?thesis
      by (intro exI [of _ a]) (simp add: Held_def mergeSlotRelease_def)
  next
    assume ops: "ops = [Acquire b wb, Acquire a wa]"
    have "runCalls ops s =
       ([Acquired \<lparr>ID = ''merge-slot'', Available = True, Holder = b\<rparr>,
         Acquired \<lparr>ID = ''merge-slot'', Available = False, Holder = b\<rparr>], b)"
      unfolding ops s by (rule runCalls_two_acquires [OF assms(2)])
    with assms(2) show ?thesis
      by (intro exI [of _ b]) (simp add: Held_def mergeSlotRelease_def)
  qed
qed

theorem concurrent_acquire_witness:
  "''alice'' \<noteq> '''' \<and> ''bob'' \<noteq> '''' \<and> Free '''' \<and>
   (\<exists>winner. winner \<in> {''alice'', ''bob''} \<and>
     runCalls [Acquire ''bob'' False, Acquire ''alice'' False] '''' =
       ([Acquired \<lparr>ID = ''merge-slot'', Available = True, Holder = winner\<rparr>,
         Acquired \<lparr>ID = ''merge-slot'', Available = False, Holder = winner\<rparr>], winner) \<and>
     mergeSlotRelease winner
       (snd (runCalls [Acquire ''bob'' False, Acquire ''alice'' False] '''')) = (Inr (), '''') \<and>
     (\<forall>c. c \<noteq> winner \<longrightarrow>
        mergeSlotRelease c
          (snd (runCalls [Acquire ''bob'' False, Acquire ''alice'' False] '''')) =
          (Inl (HolderMismatch winner c),
           snd (runCalls [Acquire ''bob'' False, Acquire ''alice'' False] ''''))))"
proof -
  have a: "''alice'' \<noteq> ''''" and b: "''bob'' \<noteq> ''''" by simp_all
  have free: "Free ''''" by (simp add: Free_def)
  have ops: "[Acquire ''bob'' False, Acquire ''alice'' False] =
        [Acquire ''alice'' False, Acquire ''bob'' False] \<or>
      [Acquire ''bob'' False, Acquire ''alice'' False] =
        [Acquire ''bob'' False, Acquire ''alice'' False]" by simp
  from concurrent_acquire [OF a b free ops] a b free show ?thesis
    by blast
qed

section \<open>Registry consistency\<close>

lemma registerAll_snoc:
  "registerAll (calls @ [(p, r)]) reg = RegisterPrefix p r (registerAll calls reg)"
  by (simp add: registerAll_def)

lemma registerAll_Nil: "registerAll [] reg = reg"
  by (simp add: registerAll_def)

lemma prefixToRig_registerAll:
  "compatible calls \<Longrightarrow>
   prefixToRig (registerAll calls ClearRegistry) p = Some r \<longleftrightarrow> (p, r) \<in> set calls"
proof (induction calls rule: rev_induct)
  case Nil
  show ?case by (simp add: registerAll_Nil ClearRegistry_def)
next
  case (snoc c calls)
  obtain p0 r0 where c: "c = (p0, r0)" by (cases c)
  from snoc.prems have compat: "compatible calls"
    by (auto simp: compatible_def)
  from snoc.prems c have same: "\<And>r'. (p0, r') \<in> set calls \<Longrightarrow> r' = r0"
    by (fastforce simp: compatible_def)
  show ?case
    using snoc.IH [OF compat] same
    by (auto simp: c registerAll_snoc RegisterPrefix_def)
qed

lemma rigToPrefix_registerAll:
  "compatible calls \<Longrightarrow>
   rigToPrefix (registerAll calls ClearRegistry) r = Some p \<longleftrightarrow> (p, r) \<in> set calls"
proof (induction calls rule: rev_induct)
  case Nil
  show ?case by (simp add: registerAll_Nil ClearRegistry_def)
next
  case (snoc c calls)
  obtain p0 r0 where c: "c = (p0, r0)" by (cases c)
  from snoc.prems have compat: "compatible calls"
    by (auto simp: compatible_def)
  from snoc.prems c have same: "\<And>p'. (p', r0) \<in> set calls \<Longrightarrow> p' = p0"
    by (fastforce simp: compatible_def)
  show ?case
    using snoc.IH [OF compat] same
    by (auto simp: c registerAll_snoc RegisterPrefix_def)
qed

text \<open>
  C4, as the claim states it. Registering a second prefix for a rig leaves two prefixes
  mapped to that rig, and the pair registered first no longer agrees in the two
  directions; registering a prefix again with another rig leaves the old rig pointing at
  a prefix that now belongs to the new rig.
\<close>

theorem registry_counterexample:
  "RigForPrefix (registerAll [(''gt'', ''gastown''), (''g2'', ''gastown'')] ClearRegistry) ''gt'' = ''gastown'' \<and>
   PrefixForRig (registerAll [(''gt'', ''gastown''), (''g2'', ''gastown'')] ClearRegistry) ''gastown'' \<noteq> ''gt'' \<and>
   RigForPrefix (registerAll [(''gt'', ''gastown''), (''g2'', ''gastown'')] ClearRegistry) ''g2'' = ''gastown'' \<and>
   PrefixForRig (registerAll [(''gt'', ''gastown''), (''gt'', ''beads'')] ClearRegistry) ''gastown'' = ''gt'' \<and>
   RigForPrefix (registerAll [(''gt'', ''gastown''), (''gt'', ''beads'')] ClearRegistry) ''gt'' \<noteq> ''gastown''"
  by (simp add: registerAll_def RegisterPrefix_def ClearRegistry_def RigForPrefix_def PrefixForRig_def)

text \<open>
  C4, amended. After any sequence of RegisterPrefix calls from the empty registry in
  which no prefix is registered with two different rigs and no rig with two different
  prefixes, the two maps are inverse to each other and hold exactly the registered pairs,
  so RigForPrefix and PrefixForRig answer each registered pair in both directions. In
  any registry, right after RegisterPrefix(p0, r0) both directions hold the new pair.
\<close>

theorem registry_bijection:
  assumes "compatible calls"
  shows "(\<forall>p r. prefixToRig (registerAll calls ClearRegistry) p = Some r \<longleftrightarrow>
            rigToPrefix (registerAll calls ClearRegistry) r = Some p) \<and>
     (\<forall>p r. prefixToRig (registerAll calls ClearRegistry) p = Some r \<longleftrightarrow> (p, r) \<in> set calls) \<and>
     (\<forall>(p, r) \<in> set calls.
        RigForPrefix (registerAll calls ClearRegistry) p = r \<and>
        PrefixForRig (registerAll calls ClearRegistry) r = p) \<and>
     RigForPrefix (RegisterPrefix p0 r0 reg) p0 = r0 \<and>
     PrefixForRig (RegisterPrefix p0 r0 reg) r0 = p0"
proof -
  have fwd: "prefixToRig (registerAll calls ClearRegistry) p = Some r \<longleftrightarrow> (p, r) \<in> set calls"
    for p r by (rule prefixToRig_registerAll [OF assms])
  have bwd: "rigToPrefix (registerAll calls ClearRegistry) r = Some p \<longleftrightarrow> (p, r) \<in> set calls"
    for p r by (rule rigToPrefix_registerAll [OF assms])
  have both: "prefixToRig (registerAll calls ClearRegistry) p = Some r \<longleftrightarrow>
      rigToPrefix (registerAll calls ClearRegistry) r = Some p" for p r
    by (simp add: fwd bwd)
  have look: "RigForPrefix (registerAll calls ClearRegistry) p = r \<and>
      PrefixForRig (registerAll calls ClearRegistry) r = p" if "(p, r) \<in> set calls" for p r
  proof -
    from that have "prefixToRig (registerAll calls ClearRegistry) p = Some r"
      and "rigToPrefix (registerAll calls ClearRegistry) r = Some p"
      by (simp_all add: fwd bwd)
    then show ?thesis
      by (simp add: RigForPrefix_def PrefixForRig_def)
  qed
  have last: "RigForPrefix (RegisterPrefix p0 r0 reg) p0 = r0 \<and>
      PrefixForRig (RegisterPrefix p0 r0 reg) r0 = p0"
    by (simp add: RigForPrefix_def PrefixForRig_def RegisterPrefix_def)
  from both fwd look last show ?thesis
    by blast
qed

theorem registry_bijection_witness:
  "compatible [(''gt'', ''gastown''), (''bd'', ''beads''), (''gt'', ''gastown'')] \<and>
   RigForPrefix (registerAll [(''gt'', ''gastown''), (''bd'', ''beads''), (''gt'', ''gastown'')] ClearRegistry) ''bd'' = ''beads'' \<and>
   PrefixForRig (registerAll [(''gt'', ''gastown''), (''bd'', ''beads''), (''gt'', ''gastown'')] ClearRegistry) ''beads'' = ''bd''"
proof -
  have c: "compatible [(''gt'', ''gastown''), (''bd'', ''beads''), (''gt'', ''gastown'')]"
    by (simp add: compatible_def)
  from registry_bijection [OF c] c show ?thesis
    by simp
qed

section \<open>Facts about the string functions\<close>

lemma Index_ge: "- 1 \<le> Index s sub"
  by (induction s) (auto simp: Let_def)

lemma Index_absent: "c \<notin> set s \<Longrightarrow> Index s [c] = - 1"
  by (induction s) (auto simp: Let_def)

lemma Index_first: "c \<notin> set p \<Longrightarrow> Index (p @ c # rest) [c] = int (length p)"
  by (induction p) (auto simp: Let_def)

lemma Index_found:
  "0 \<le> Index s [c] \<Longrightarrow>
     nat (Index s [c]) < length s \<and> s ! nat (Index s [c]) = c \<and>
     c \<notin> set (take (nat (Index s [c])) s)"
proof (induction s)
  case Nil
  then show ?case by simp
next
  case (Cons a s)
  show ?case
  proof (cases "a = c")
    case True
    then show ?thesis by simp
  next
    case False
    with Cons.prems have pos: "0 \<le> Index s [c]" and idx: "Index (a # s) [c] = Index s [c] + 1"
      by (auto simp: Let_def split: if_splits)
    from pos have n: "nat (Index s [c] + 1) = Suc (nat (Index s [c]))"
      by simp
    from Cons.IH [OF pos] False show ?thesis
      unfolding idx n by simp
  qed
qed

lemma Index_split:
  assumes "0 \<le> Index s [c]"
  shows "s = take (nat (Index s [c])) s @ c # drop (nat (Index s [c]) + 1) s"
proof -
  from Index_found [OF assms] have "nat (Index s [c]) < length s" and "s ! nat (Index s [c]) = c"
    by simp_all
  then show ?thesis
    by (metis Suc_eq_plus1 id_take_nth_drop)
qed

lemma hq_prefix:
  "CHR ''-'' \<notin> set p \<Longrightarrow> HasPrefix (p @ CHR ''-'' # rest) HQPrefix \<longleftrightarrow> p = ''hq''"
proof (cases p)
  case Nil
  then show ?thesis by (simp add: HasPrefix_def HQPrefix_def)
next
  case (Cons a p1)
  assume d: "CHR ''-'' \<notin> set p"
  show ?thesis
  proof (cases p1)
    case Nil
    with Cons show ?thesis by (auto simp: HasPrefix_def HQPrefix_def)
  next
    case (Cons b p2)
    with \<open>p = a # p1\<close> d show ?thesis
      by (cases p2) (auto simp: HasPrefix_def HQPrefix_def)
  qed
qed

lemma ParseSessionName_rig:
  assumes "p \<noteq> []" and "CHR ''-'' \<notin> set p" and "p \<noteq> ''hq''"
  shows "ParseSessionName reg (p @ CHR ''-'' # rest) =
     (if rest = [] then Inl (NoSeparator (p @ ''-''))
      else parseRest reg (p @ CHR ''-'' # rest) p rest)"
proof -
  have hq: "\<not> HasPrefix (p @ CHR ''-'' # rest) HQPrefix"
    using assms by (simp add: hq_prefix)
  have idx: "Index (p @ CHR ''-'' # rest) ''-'' = int (length p)"
    using assms(2) by (rule Index_first)
  show ?thesis
    using assms(1)
    by (simp add: ParseSessionName_def hq idx Let_def sliceTo_def sliceFrom_def nat_add_distrib)
qed

lemma ParseSessionName_unfold:
  assumes "\<not> HasPrefix s HQPrefix"
    and "\<not> (Index s ''-'' \<le> 0 \<or> Index s ''-'' = int (length s) - 1)"
  shows "ParseSessionName reg s =
      parseRest reg s (take (nat (Index s ''-'')) s) (drop (nat (Index s ''-'') + 1) s)"
    and "s = take (nat (Index s ''-'')) s @ CHR ''-'' # drop (nat (Index s ''-'') + 1) s"
    and "take (nat (Index s ''-'')) s \<noteq> []"
    and "drop (nat (Index s ''-'') + 1) s \<noteq> []"
    and "CHR ''-'' \<notin> set (take (nat (Index s ''-'')) s)"
proof -
  from assms(2) have pos: "0 \<le> Index s ''-''" and pos': "0 < Index s ''-''"
    by simp_all
  from Index_found [OF pos] have lt: "nat (Index s ''-'') < length s"
    and nin: "CHR ''-'' \<notin> set (take (nat (Index s ''-'')) s)"
    by simp_all
  show "CHR ''-'' \<notin> set (take (nat (Index s ''-'')) s)" by (rule nin)
  show "s = take (nat (Index s ''-'')) s @ CHR ''-'' # drop (nat (Index s ''-'') + 1) s"
    by (rule Index_split [OF pos])
  from lt pos' show "take (nat (Index s ''-'')) s \<noteq> []"
    by auto
  from lt assms(2) show "drop (nat (Index s ''-'') + 1) s \<noteq> []"
    by auto
  from lt pos have le: "Index s ''-'' + 1 \<le> int (length s)"
    by linarith
  from le pos assms show "ParseSessionName reg s =
      parseRest reg s (take (nat (Index s ''-'')) s) (drop (nat (Index s ''-'') + 1) s)"
    by (simp add: ParseSessionName_def Let_def sliceTo_def sliceFrom_def nat_add_distrib)
qed

lemma parseRest_no_panic: "parseRest reg s p rest \<noteq> Inl Panic"
proof -
  have "sliceFrom rest 5 \<noteq> None" if "HasPrefix rest ''crew-''"
  proof -
    from that have "length ''crew-'' \<le> length rest"
      unfolding HasPrefix_def by (rule prefix_length_le)
    then show ?thesis by (simp add: sliceFrom_def)
  qed
  then show ?thesis
    by (auto simp: parseRest_def Let_def split: option.splits)
qed

lemma ParseSessionName_no_panic: "ParseSessionName reg s \<noteq> Inl Panic"
proof (cases "HasPrefix s HQPrefix")
  case True
  then show ?thesis by (simp add: ParseSessionName_def Let_def)
next
  case False
  show ?thesis
  proof (cases "Index s ''-'' \<le> 0 \<or> Index s ''-'' = int (length s) - 1")
    case True
    with False show ?thesis by (simp add: ParseSessionName_def Let_def)
  next
    case nosep: False
    show ?thesis
      by (simp add: ParseSessionName_unfold(1) [OF False nosep] parseRest_no_panic)
  qed
qed

section \<open>Malformed session names\<close>

lemma no_dash_no_hq: "CHR ''-'' \<notin> set s \<Longrightarrow> \<not> HasPrefix s HQPrefix"
  by (auto simp: HasPrefix_def HQPrefix_def prefix_def)

lemma ParseSessionName_no_dash:
  assumes "CHR ''-'' \<notin> set s"
  shows "ParseSessionName reg s = Inl (NoSeparator s)"
  using no_dash_no_hq [OF assms] Index_absent [OF assms]
  by (simp add: ParseSessionName_def Let_def)

lemma ParseSessionName_empty_prefix:
  "ParseSessionName reg (CHR ''-'' # rest) = Inl (NoSeparator (CHR ''-'' # rest))"
  by (simp add: ParseSessionName_def Let_def HasPrefix_def HQPrefix_def)

lemma ParseSessionName_hq:
  "ParseSessionName reg (''hq-'' @ sfx) =
     (if sfx = ''mayor'' then Inr \<lparr>Role = RoleMayor, Rig = '''', Name = '''', Prefix = ''''\<rparr>
      else if sfx = ''deacon'' then Inr \<lparr>Role = RoleDeacon, Rig = '''', Name = '''', Prefix = ''''\<rparr>
      else if sfx = ''boot'' then Inr \<lparr>Role = RoleDeacon, Rig = '''', Name = ''boot'', Prefix = ''''\<rparr>
      else if sfx = ''overseer''
        then Inr \<lparr>Role = RoleMayor, Rig = '''', Name = ''overseer'', Prefix = ''''\<rparr>
      else Inl (UnknownHqRole (''hq-'' @ sfx)))"
  by (simp add: ParseSessionName_def Let_def HasPrefix_def HQPrefix_def TrimPrefix_def)

lemma ParseSessionName_empty_rest:
  assumes "CHR ''-'' \<notin> set p"
  shows "ParseSessionName reg (p @ ''-'') =
     Inl (if p = ''hq'' then UnknownHqRole (p @ ''-'') else NoSeparator (p @ ''-''))"
proof (cases "p = ''hq''")
  case True
  then show ?thesis using ParseSessionName_hq [of reg "''''"] by simp
next
  case False
  show ?thesis
  proof (cases "p = []")
    case True
    then show ?thesis using ParseSessionName_empty_prefix [of reg "''''"] by simp
  next
    case ne: False
    from ParseSessionName_rig [OF ne assms False, of reg "''''"] False show ?thesis
      by simp
  qed
qed

lemma parseRest_crew_empty: "parseRest reg s p ''crew-'' = Inl (EmptyCrewName s)"
  by (simp add: parseRest_def Let_def HasPrefix_def sliceFrom_def)

lemma ParseSessionName_empty_crew:
  assumes "CHR ''-'' \<notin> set p"
  shows "ParseSessionName reg (p @ ''-crew-'') =
     Inl (if p = ''hq'' then UnknownHqRole (p @ ''-crew-'')
          else if p = [] then NoSeparator (p @ ''-crew-'')
          else EmptyCrewName (p @ ''-crew-''))"
proof (cases "p = ''hq''")
  case True
  then show ?thesis using ParseSessionName_hq [of reg "''crew-''"] by simp
next
  case False
  show ?thesis
  proof (cases "p = []")
    case True
    then show ?thesis using ParseSessionName_empty_prefix [of reg "''crew-''"] by simp
  next
    case ne: False
    from ParseSessionName_rig [OF ne assms False, of reg "''crew-''"] False ne show ?thesis
      by (simp add: parseRest_crew_empty)
  qed
qed

text \<open>
  C9. A session name with no separator, with nothing after the separator, with nothing
  before it, or with nothing after the crew marker is answered with an error that names
  the session string, never with an identity; and for no input at all does a slice
  expression of the decoder go out of range.
\<close>

theorem malformed_session_rejected:
  "(CHR ''-'' \<notin> set s \<longrightarrow> ParseSessionName reg s = Inl (NoSeparator s)) \<and>
   (CHR ''-'' \<notin> set p \<longrightarrow>
      ParseSessionName reg (p @ ''-'') =
        Inl (if p = ''hq'' then UnknownHqRole (p @ ''-'') else NoSeparator (p @ ''-''))) \<and>
   ParseSessionName reg (''-'' @ rest) = Inl (NoSeparator (''-'' @ rest)) \<and>
   (CHR ''-'' \<notin> set p \<longrightarrow>
      ParseSessionName reg (p @ ''-crew-'') =
        Inl (if p = ''hq'' then UnknownHqRole (p @ ''-crew-'')
             else if p = [] then NoSeparator (p @ ''-crew-'')
             else EmptyCrewName (p @ ''-crew-''))) \<and>
   ParseSessionName reg t \<noteq> Inl Panic"
  using ParseSessionName_no_dash [of s reg] ParseSessionName_empty_rest [of p reg]
    ParseSessionName_empty_prefix [of reg rest] ParseSessionName_empty_crew [of p reg]
    ParseSessionName_no_panic [of reg t]
  by simp

theorem malformed_session_rejected_witness:
  "CHR ''-'' \<notin> set ''gastown'' \<and> CHR ''-'' \<notin> set ''gt'' \<and>
   ParseSessionName testRegistry ''gastown'' = Inl (NoSeparator ''gastown'') \<and>
   ParseSessionName testRegistry ''gt-'' = Inl (NoSeparator ''gt-'') \<and>
   ParseSessionName testRegistry ''-max'' = Inl (NoSeparator ''-max'') \<and>
   ParseSessionName testRegistry ''gt-crew-'' = Inl (EmptyCrewName ''gt-crew-'')"
  using malformed_session_rejected [of "''gastown''" testRegistry "''gt''" "''max''"]
  by simp

section \<open>Well-formed rig-level session names\<close>

lemma sliceFrom_crew: "HasPrefix rest ''crew-'' \<Longrightarrow> sliceFrom rest 5 = Some (drop 5 rest)"
proof -
  assume "HasPrefix rest ''crew-''"
  then have "length ''crew-'' \<le> length rest"
    unfolding HasPrefix_def by (rule prefix_length_le)
  then show ?thesis by (simp add: sliceFrom_def)
qed

lemma crew_drop: "HasPrefix rest ''crew-'' \<Longrightarrow> rest = ''crew-'' @ drop 5 rest"
  by (auto simp: HasPrefix_def prefix_def)

lemma parseRest_ok:
  assumes "rest \<noteq> []" and "rest \<noteq> ''crew-''"
  shows "parseRest reg s p rest =
     Inr (if rest = ''witness''
            then \<lparr>Role = RoleWitness, Rig = RigForPrefix reg p, Name = '''', Prefix = p\<rparr>
          else if rest = ''refinery''
            then \<lparr>Role = RoleRefinery, Rig = RigForPrefix reg p, Name = '''', Prefix = p\<rparr>
          else if rest = ''boot''
            then \<lparr>Role = RoleDeacon, Rig = '''', Name = ''boot'', Prefix = p\<rparr>
          else if HasPrefix rest ''crew-''
            then \<lparr>Role = RoleCrew, Rig = RigForPrefix reg p, Name = drop 5 rest, Prefix = p\<rparr>
          else \<lparr>Role = RolePolecat, Rig = RigForPrefix reg p, Name = rest, Prefix = p\<rparr>)"
proof (cases "HasPrefix rest ''crew-''")
  case True
  from crew_drop [OF True] assms(2) have "drop 5 rest \<noteq> []"
    by auto
  with True show ?thesis
    by (simp add: parseRest_def Let_def sliceFrom_crew)
next
  case False
  with assms(1) show ?thesis
    by (simp add: parseRest_def Let_def)
qed

lemma parseRest_error_registry:
  "parseRest reg s p rest = Inl e \<longleftrightarrow> parseRest reg' s p rest = Inl e"
  by (simp add: parseRest_def Let_def split: option.splits)

lemma ParseSessionName_error_registry:
  "ParseSessionName reg s = Inl e \<longleftrightarrow> ParseSessionName reg' s = Inl e"
proof (cases "HasPrefix s HQPrefix")
  case True
  then show ?thesis by (simp add: ParseSessionName_def Let_def)
next
  case False
  show ?thesis
  proof (cases "Index s ''-'' \<le> 0 \<or> Index s ''-'' = int (length s) - 1")
    case True
    with False show ?thesis by (simp add: ParseSessionName_def Let_def)
  next
    case nosep: False
    show ?thesis
      unfolding ParseSessionName_unfold(1) [OF False nosep]
      by (rule parseRest_error_registry)
  qed
qed

lemma RigForPrefix_unknown: "\<not> IsKnownPrefix reg p \<Longrightarrow> RigForPrefix reg p = ''''"
  by (simp add: IsKnownPrefix_def RigForPrefix_def)

lemma testRegistry_lookups:
  "RigForPrefix testRegistry ''gt'' = ''gastown''"
  "RigForPrefix testRegistry ''bd'' = ''beads''"
  "PrefixForRig testRegistry ''gastown'' = ''gt''"
  "PrefixForRig testRegistry ''beads'' = ''bd''"
  "\<not> IsKnownPrefix testRegistry ''xyz''"
  by (simp_all add: testRegistry_def registerAll_def RegisterPrefix_def ClearRegistry_def
      RigForPrefix_def PrefixForRig_def IsKnownPrefix_def)

text \<open>
  C7. A rig-level session name (a non-empty prefix without a hyphen, other than the
  town prefix, then a hyphen, then a non-empty rest that is not the bare crew marker)
  whose prefix is not registered decodes successfully: the role and name are read off the
  rest, the rig is empty, and the prefix is the text before the first hyphen. Whether
  and how the decoder fails never depends on the registry.
\<close>

theorem unregistered_prefix_decodes:
  assumes "p \<noteq> []" and "CHR ''-'' \<notin> set p" and "p \<noteq> ''hq''"
    and "rest \<noteq> []" and "rest \<noteq> ''crew-''"
    and "\<not> IsKnownPrefix reg p"
  shows "ParseSessionName reg (p @ ''-'' @ rest) =
     Inr (if rest = ''witness''
            then \<lparr>Role = RoleWitness, Rig = '''', Name = '''', Prefix = p\<rparr>
          else if rest = ''refinery''
            then \<lparr>Role = RoleRefinery, Rig = '''', Name = '''', Prefix = p\<rparr>
          else if rest = ''boot''
            then \<lparr>Role = RoleDeacon, Rig = '''', Name = ''boot'', Prefix = p\<rparr>
          else if HasPrefix rest ''crew-''
            then \<lparr>Role = RoleCrew, Rig = '''', Name = drop 5 rest, Prefix = p\<rparr>
          else \<lparr>Role = RolePolecat, Rig = '''', Name = rest, Prefix = p\<rparr>) \<and>
     (ParseSessionName reg s = Inl e \<longleftrightarrow> ParseSessionName reg' s = Inl e)"
proof (rule conjI)
  have "ParseSessionName reg (p @ ''-'' @ rest) = parseRest reg (p @ ''-'' @ rest) p rest"
    using ParseSessionName_rig [OF assms(1-3), of reg rest] assms(4) by simp
  then show "ParseSessionName reg (p @ ''-'' @ rest) =
     Inr (if rest = ''witness''
            then \<lparr>Role = RoleWitness, Rig = '''', Name = '''', Prefix = p\<rparr>
          else if rest = ''refinery''
            then \<lparr>Role = RoleRefinery, Rig = '''', Name = '''', Prefix = p\<rparr>
          else if rest = ''boot''
            then \<lparr>Role = RoleDeacon, Rig = '''', Name = ''boot'', Prefix = p\<rparr>
          else if HasPrefix rest ''crew-''
            then \<lparr>Role = RoleCrew, Rig = '''', Name = drop 5 rest, Prefix = p\<rparr>
          else \<lparr>Role = RolePolecat, Rig = '''', Name = rest, Prefix = p\<rparr>)"
    by (simp add: parseRest_ok [OF assms(4,5)] RigForPrefix_unknown [OF assms(6)])
  show "ParseSessionName reg s = Inl e \<longleftrightarrow> ParseSessionName reg' s = Inl e"
    by (rule ParseSessionName_error_registry)
qed

theorem unregistered_prefix_decodes_witness:
  "''xyz'' \<noteq> [] \<and> CHR ''-'' \<notin> set ''xyz'' \<and> ''xyz'' \<noteq> ''hq'' \<and> ''witness'' \<noteq> [] \<and>
   ''witness'' \<noteq> ''crew-'' \<and> \<not> IsKnownPrefix testRegistry ''xyz'' \<and>
   ParseSessionName testRegistry ''xyz-witness'' =
     Inr \<lparr>Role = RoleWitness, Rig = '''', Name = '''', Prefix = ''xyz''\<rparr>"
proof -
  have h: "''xyz'' \<noteq> []" "CHR ''-'' \<notin> set ''xyz''" "''xyz'' \<noteq> ''hq''" "''witness'' \<noteq> []"
    "''witness'' \<noteq> ''crew-''" "\<not> IsKnownPrefix testRegistry ''xyz''"
    by (simp_all add: testRegistry_lookups)
  from unregistered_prefix_decodes [OF h] h show ?thesis
    by simp
qed

section \<open>Reserved keywords as the rest of a session name\<close>

text \<open>
  C5, as the claim states it: \<^verbatim>\<open>gt-crew\<close> is not rejected but decoded as the worker
  named crew, and \<^verbatim>\<open>gt-refinery\<close> is decoded as the refinery of the rig.
\<close>

theorem reserved_keyword_counterexample:
  "ParseSessionName testRegistry ''gt-crew'' =
     Inr \<lparr>Role = RolePolecat, Rig = ''gastown'', Name = ''crew'', Prefix = ''gt''\<rparr> \<and>
   ParseSessionName testRegistry ''gt-refinery'' =
     Inr \<lparr>Role = RoleRefinery, Rig = ''gastown'', Name = '''', Prefix = ''gt''\<rparr>"
  using ParseSessionName_rig [of "''gt''" testRegistry "''crew''"]
    ParseSessionName_rig [of "''gt''" testRegistry "''refinery''"]
  by (simp add: parseRest_def HasPrefix_def testRegistry_lookups)

text \<open>
  C5, amended. For a session name prefix-rest (the prefix non-empty, without a hyphen and
  not the town prefix) whose rest is a reserved keyword standing alone, the decoder does
  not fail: witness, refinery and boot select the witness, the refinery and the boot
  watchdog, and crew with no name after it is decoded by the fallback as the worker
  named crew.
\<close>

theorem reserved_keyword_decodes:
  assumes "p \<noteq> []" and "CHR ''-'' \<notin> set p" and "p \<noteq> ''hq''"
  shows "ParseSessionName reg (p @ ''-crew'') =
      Inr \<lparr>Role = RolePolecat, Rig = RigForPrefix reg p, Name = ''crew'', Prefix = p\<rparr> \<and>
    ParseSessionName reg (p @ ''-refinery'') =
      Inr \<lparr>Role = RoleRefinery, Rig = RigForPrefix reg p, Name = '''', Prefix = p\<rparr> \<and>
    ParseSessionName reg (p @ ''-witness'') =
      Inr \<lparr>Role = RoleWitness, Rig = RigForPrefix reg p, Name = '''', Prefix = p\<rparr> \<and>
    ParseSessionName reg (p @ ''-boot'') =
      Inr \<lparr>Role = RoleDeacon, Rig = '''', Name = ''boot'', Prefix = p\<rparr>"
  using ParseSessionName_rig [OF assms, of reg "''crew''"]
    ParseSessionName_rig [OF assms, of reg "''refinery''"]
    ParseSessionName_rig [OF assms, of reg "''witness''"]
    ParseSessionName_rig [OF assms, of reg "''boot''"]
  by (simp add: parseRest_def HasPrefix_def)

theorem reserved_keyword_decodes_witness:
  "''bd'' \<noteq> [] \<and> CHR ''-'' \<notin> set ''bd'' \<and> ''bd'' \<noteq> ''hq'' \<and>
   ParseSessionName testRegistry ''bd-crew'' =
      Inr \<lparr>Role = RolePolecat, Rig = ''beads'', Name = ''crew'', Prefix = ''bd''\<rparr> \<and>
   ParseSessionName testRegistry ''bd-boot'' =
      Inr \<lparr>Role = RoleDeacon, Rig = '''', Name = ''boot'', Prefix = ''bd''\<rparr>"
proof -
  have h: "''bd'' \<noteq> []" "CHR ''-'' \<notin> set ''bd''" "''bd'' \<noteq> ''hq''"
    by simp_all
  from reserved_keyword_decodes [OF h, of testRegistry] h show ?thesis
    by (simp add: testRegistry_lookups)
qed

section \<open>White space trimming\<close>

lemma runeWidth_Nil: "runeWidth rs [] = 0"
  by (auto simp: runeWidth_def split: option.splits dest: find_Some_iff [THEN iffD1])

lemma runeWidth_trimLeading: "runeWidth rs (trimLeading rs s) = 0"
  by (induction rs s rule: trimLeading.induct) (simp_all add: runeWidth_Nil)

lemma trimLeading_fixed: "runeWidth rs s = 0 \<Longrightarrow> trimLeading rs s = s"
  by (cases s) simp_all

lemma trimLeading_idem: "trimLeading rs (trimLeading rs s) = trimLeading rs s"
  by (rule trimLeading_fixed) (rule runeWidth_trimLeading)

lemma suffix_trimLeading: "suffix (trimLeading rs s) s"
proof (induction rs s rule: trimLeading.induct)
  case (1 rs)
  show ?case by simp
next
  case (2 rs c cs)
  show ?case
  proof (cases "runeWidth rs (c # cs) = 0")
    case True
    then show ?thesis by simp
  next
    case False
    from 2 [OF False] have "suffix (trimLeading rs (c # cs)) (drop (runeWidth rs (c # cs) - 1) cs)"
      using False by simp
    also have "suffix (drop (runeWidth rs (c # cs) - 1) cs) cs"
      by (rule suffix_drop)
    also have "suffix cs (c # cs)"
      by (simp add: suffix_ConsI)
    finally show ?thesis .
  qed
qed

lemma runeWidth_zero_iff:
  assumes "[] \<notin> set rs"
  shows "runeWidth rs s = 0 \<longleftrightarrow> (\<forall>r \<in> set rs. \<not> prefix r s)"
proof (cases "find (\<lambda>r. prefix r s) rs")
  case None
  have "runeWidth rs s = 0"
    unfolding runeWidth_def None by simp
  moreover from None have "\<forall>r \<in> set rs. \<not> prefix r s"
    by (simp add: find_None_iff)
  ultimately show ?thesis by simp
next
  case (Some r)
  then have "r \<in> set rs" and "prefix r s"
    by (auto simp: find_Some_iff)
  with assms Some show ?thesis
    by (auto simp: runeWidth_def)
qed

lemma runeWidth_prefix:
  assumes "[] \<notin> set rs" and "runeWidth rs s = 0" and "prefix u s"
  shows "runeWidth rs u = 0"
  using assms by (auto simp: runeWidth_zero_iff dest: prefix_order.trans)

lemma spaceRunes_nonempty: "[] \<notin> set spaceRunes"
  by (simp add: spaceRunes_def)

lemma prefix_TrimRightSpace: "prefix (TrimRightSpace s) s"
  using suffix_trimLeading [of "map rev spaceRunes" "rev s"]
  by (simp add: TrimRightSpace_def suffix_to_prefix)

lemma TrimRightSpace_idem: "TrimRightSpace (TrimRightSpace s) = TrimRightSpace s"
  by (simp add: TrimRightSpace_def trimLeading_idem)

lemma TrimLeftSpace_TrimSpace: "TrimLeftSpace (TrimSpace s) = TrimSpace s"
proof -
  have "runeWidth spaceRunes (TrimLeftSpace s) = 0"
    by (simp add: TrimLeftSpace_def runeWidth_trimLeading)
  from runeWidth_prefix [OF spaceRunes_nonempty this prefix_TrimRightSpace]
  have "runeWidth spaceRunes (TrimRightSpace (TrimLeftSpace s)) = 0" .
  then show ?thesis
    by (simp add: TrimSpace_def TrimLeftSpace_def trimLeading_fixed)
qed

lemma TrimSpace_idem: "TrimSpace (TrimSpace s) = TrimSpace s"
proof -
  have "TrimSpace (TrimSpace s) = TrimRightSpace (TrimLeftSpace (TrimSpace s))"
    by (simp add: TrimSpace_def)
  also have "\<dots> = TrimRightSpace (TrimSpace s)"
    by (simp add: TrimLeftSpace_TrimSpace)
  also have "\<dots> = TrimSpace s"
    by (simp add: TrimSpace_def TrimRightSpace_idem)
  finally show ?thesis .
qed

lemma spaceRunes_prefix_free:
  "\<forall>r \<in> set spaceRunes. \<forall>w \<in> set spaceRunes. prefix r w \<longrightarrow> r = w"
  by code_simp

lemma runeWidth_space:
  assumes "w \<in> set spaceRunes"
  shows "runeWidth spaceRunes (w @ rest) = length w"
proof (cases "find (\<lambda>r. prefix r (w @ rest)) spaceRunes")
  case None
  with assms show ?thesis
    by (auto simp: find_None_iff)
next
  case (Some r)
  then have r: "r \<in> set spaceRunes" and "prefix r (w @ rest)"
    by (auto simp: find_Some_iff)
  then have "prefix r w \<or> prefix w r"
    using prefix_same_cases [of r "w @ rest" w] by simp
  with r assms spaceRunes_prefix_free have "r = w"
    by blast
  with Some show ?thesis
    by (simp add: runeWidth_def)
qed

lemma TrimLeftSpace_spaces:
  "\<forall>w \<in> set ws. w \<in> set spaceRunes \<Longrightarrow> TrimLeftSpace (concat ws) = []"
proof (induction ws)
  case Nil
  show ?case by (simp add: TrimLeftSpace_def)
next
  case (Cons w ws)
  then have w: "w \<in> set spaceRunes" and ih: "TrimLeftSpace (concat ws) = []"
    by simp_all
  from w spaceRunes_nonempty have "w \<noteq> []"
    by metis
  then obtain c cs where wc: "w = c # cs"
    by (cases w) simp_all
  have width: "runeWidth spaceRunes (c # cs @ concat ws) = Suc (length cs)"
    using runeWidth_space [OF w, of "concat ws"] by (simp add: wc)
  show ?case
    using ih by (simp add: TrimLeftSpace_def wc width)
qed

lemma TrimSpace_spaces:
  "\<forall>w \<in> set ws. w \<in> set spaceRunes \<Longrightarrow> TrimSpace (concat ws) = []"
  by (simp add: TrimSpace_def TrimLeftSpace_spaces TrimRightSpace_def)

lemma ParseAddress_trimmed: "ParseAddress reg (TrimSpace s) = ParseAddress reg s"
  by (simp add: ParseAddress_def TrimSpace_idem)

section \<open>Addresses of two and three segments\<close>

lemma Split_single: "sep \<notin> set a \<Longrightarrow> Split a sep = [a]"
  by (induction a) auto

lemma Split_append: "sep \<notin> set a \<Longrightarrow> Split (a @ sep # b) sep = a # Split b sep"
  by (induction a) auto

lemma no_trailing_slash:
  assumes "name \<noteq> []" and "CHR ''/'' \<notin> set name"
  shows "TrimSuffix (a @ name) ''/'' = a @ name"
proof -
  from assms have "last (a @ name) \<noteq> CHR ''/''"
    by (metis last_appendR last_in_set)
  moreover have "last (a @ name) = CHR ''/''" if "suffix ''/'' (a @ name)"
    using that by (auto simp: suffix_def)
  ultimately show ?thesis
    by (auto simp: TrimSuffix_def)
qed

lemma ends_with_slash:
  assumes "TrimSuffix a ''/'' = a"
  shows "a \<noteq> t @ ''/''"
proof
  assume "a = t @ ''/''"
  then have "TrimSuffix a ''/'' = t"
    by (simp add: TrimSuffix_def)
  with assms \<open>a = t @ ''/''\<close> show False
    by simp
qed

lemma ParseAddress_two:
  assumes "CHR ''/'' \<notin> set rig" and "CHR ''/'' \<notin> set name" and "name \<noteq> []"
    and "TrimSpace (rig @ ''/'' @ name) = rig @ ''/'' @ name"
  shows "ParseAddress reg (rig @ ''/'' @ name) =
     (if name = ''witness''
        then Inr \<lparr>Role = RoleWitness, Rig = rig, Name = '''', Prefix = PrefixForRig reg rig\<rparr>
      else if name = ''refinery''
        then Inr \<lparr>Role = RoleRefinery, Rig = rig, Name = '''', Prefix = PrefixForRig reg rig\<rparr>
      else if name = ''crew'' \<or> name = ''polecats''
        then Inl (InvalidAddress (rig @ ''/'' @ name))
      else Inr \<lparr>Role = RolePolecat, Rig = rig, Name = name, Prefix = PrefixForRig reg rig\<rparr>)"
proof -
  let ?a = "rig @ ''/'' @ name"
  have parts: "Split ?a (CHR ''/'') = [rig, name]"
    using assms(1,2) by (simp add: Split_append Split_single)
  have trim: "TrimSuffix ?a ''/'' = ?a"
    using no_trailing_slash [OF assms(3,2), of "rig @ ''/''"] by simp
  have ne: "?a \<noteq> ''''" by simp
  have slash: "CHR ''/'' \<in> set ?a" by simp
  have other: "?a \<noteq> t" if "CHR ''/'' \<notin> set t" for t
    using slash that by metis
  have "?a \<noteq> ''mayor''" and "?a \<noteq> ''deacon''" and "?a \<noteq> ''overseer''"
    by (rule other, simp)+
  moreover have "?a \<noteq> ''mayor/''" and "?a \<noteq> ''deacon/''"
    using ends_with_slash [OF trim, of "''mayor''"] ends_with_slash [OF trim, of "''deacon''"]
    by simp_all
  ultimately show ?thesis
    unfolding ParseAddress_def assms(4) Let_def trim parts using ne by simp
qed

lemma ParseAddress_three:
  assumes "CHR ''/'' \<notin> set rig" and "CHR ''/'' \<notin> set kind" and "CHR ''/'' \<notin> set name"
    and "name \<noteq> []"
    and "TrimSpace (rig @ ''/'' @ kind @ ''/'' @ name) = rig @ ''/'' @ kind @ ''/'' @ name"
  shows "ParseAddress reg (rig @ ''/'' @ kind @ ''/'' @ name) =
     (if kind = ''crew''
        then Inr \<lparr>Role = RoleCrew, Rig = rig, Name = name, Prefix = PrefixForRig reg rig\<rparr>
      else if kind = ''polecats''
        then Inr \<lparr>Role = RolePolecat, Rig = rig, Name = name, Prefix = PrefixForRig reg rig\<rparr>
      else Inl (InvalidAddress (rig @ ''/'' @ kind @ ''/'' @ name)))"
proof -
  let ?a = "rig @ ''/'' @ kind @ ''/'' @ name"
  have parts: "Split ?a (CHR ''/'') = [rig, kind, name]"
    using assms(1-3) by (simp add: Split_append Split_single)
  have trim: "TrimSuffix ?a ''/'' = ?a"
    using no_trailing_slash [OF assms(4,3), of "rig @ ''/'' @ kind @ ''/''"] by simp
  have ne: "?a \<noteq> ''''" by simp
  have slash: "CHR ''/'' \<in> set ?a" by simp
  have other: "?a \<noteq> t" if "CHR ''/'' \<notin> set t" for t
    using slash that by metis
  have "?a \<noteq> ''mayor''" and "?a \<noteq> ''deacon''" and "?a \<noteq> ''overseer''"
    by (rule other, simp)+
  moreover have "?a \<noteq> ''mayor/''" and "?a \<noteq> ''deacon/''"
    using ends_with_slash [OF trim, of "''mayor''"] ends_with_slash [OF trim, of "''deacon''"]
    by simp_all
  ultimately show ?thesis
    unfolding ParseAddress_def assms(5) Let_def trim parts using ne by simp
qed

lemma ParseAddress_town:
  "ParseAddress reg ''mayor'' = Inr \<lparr>Role = RoleMayor, Rig = '''', Name = '''', Prefix = ''''\<rparr>"
  "ParseAddress reg ''deacon'' = Inr \<lparr>Role = RoleDeacon, Rig = '''', Name = '''', Prefix = ''''\<rparr>"
  "ParseAddress reg ''overseer'' = Inl OverseerNoSession"
proof -
  have "TrimSpace ''mayor'' = ''mayor''" "TrimSpace ''deacon'' = ''deacon''"
    "TrimSpace ''overseer'' = ''overseer''"
    by code_simp+
  then show
    "ParseAddress reg ''mayor'' = Inr \<lparr>Role = RoleMayor, Rig = '''', Name = '''', Prefix = ''''\<rparr>"
    "ParseAddress reg ''deacon'' = Inr \<lparr>Role = RoleDeacon, Rig = '''', Name = '''', Prefix = ''''\<rparr>"
    "ParseAddress reg ''overseer'' = Inl OverseerNoSession"
    by (simp_all add: ParseAddress_def)
qed

section \<open>What a successful session-name decode looks like\<close>

lemma hq_session:
  assumes "HasPrefix t HQPrefix"
  shows "t = ''hq-'' @ TrimPrefix t HQPrefix"
  using assms by (auto simp: HasPrefix_def HQPrefix_def TrimPrefix_def prefix_def)

lemma ParseSessionName_Inr_cases:
  assumes "ParseSessionName reg t = Inr x"
  shows "(t = ''hq-mayor'' \<and> x = \<lparr>Role = RoleMayor, Rig = '''', Name = '''', Prefix = ''''\<rparr>) \<or>
     (t = ''hq-deacon'' \<and> x = \<lparr>Role = RoleDeacon, Rig = '''', Name = '''', Prefix = ''''\<rparr>) \<or>
     (t = ''hq-boot'' \<and> x = \<lparr>Role = RoleDeacon, Rig = '''', Name = ''boot'', Prefix = ''''\<rparr>) \<or>
     (t = ''hq-overseer'' \<and>
        x = \<lparr>Role = RoleMayor, Rig = '''', Name = ''overseer'', Prefix = ''''\<rparr>) \<or>
     (\<exists>p rest. t = p @ ''-'' @ rest \<and> p \<noteq> [] \<and> CHR ''-'' \<notin> set p \<and> p \<noteq> ''hq'' \<and>
        rest \<noteq> [] \<and> rest \<noteq> ''crew-'' \<and> parseRest reg t p rest = Inr x)"
proof (cases "HasPrefix t HQPrefix")
  case True
  from hq_session [OF True] obtain sfx where t: "t = ''hq-'' @ sfx"
    by blast
  from assms show ?thesis
    unfolding t ParseSessionName_hq by (auto split: if_splits)
next
  case False
  have nosep: "\<not> (Index t ''-'' \<le> 0 \<or> Index t ''-'' = int (length t) - 1)"
    using assms False by (auto simp: ParseSessionName_def Let_def)
  let ?p = "take (nat (Index t ''-'')) t" and ?rest = "drop (nat (Index t ''-'') + 1) t"
  note u = ParseSessionName_unfold [OF False nosep]
  from u(1) [of reg] assms have rest: "parseRest reg t ?p ?rest = Inr x"
    by simp
  from u(2) have t: "t = ?p @ ''-'' @ ?rest"
    by simp
  from False u(2) u(5) have "?p \<noteq> ''hq''"
    using hq_prefix [of ?p ?rest] by auto
  moreover from rest have "?rest \<noteq> ''crew-''"
    by (auto simp: parseRest_crew_empty)
  ultimately show ?thesis
    using t u(3) u(4) u(5) rest by blast
qed

section \<open>White space in addresses and in session names\<close>

lemma session_verbatim:
  assumes "ParseSessionName reg t = Inr x"
  shows "t \<in> {''hq-mayor'', ''hq-deacon'', ''hq-boot'', ''hq-overseer''} \<or>
     t = Prefix x @ ''-'' @
        (if Role x = RoleWitness then ''witness''
         else if Role x = RoleRefinery then ''refinery''
         else if Role x = RoleCrew then ''crew-'' @ Name x
         else Name x)"
  using ParseSessionName_Inr_cases [OF assms]
proof (elim disjE exE conjE)
  fix p rest
  assume t: "t = p @ ''-'' @ rest" and ne: "rest \<noteq> []" and nc: "rest \<noteq> ''crew-''"
    and x: "parseRest reg t p rest = Inr x"
  have roles: "RoleDeacon \<noteq> RoleWitness" "RoleDeacon \<noteq> RoleRefinery" "RoleDeacon \<noteq> RoleCrew"
    "RolePolecat \<noteq> RoleWitness" "RolePolecat \<noteq> RoleRefinery" "RolePolecat \<noteq> RoleCrew"
    "RoleCrew \<noteq> RoleWitness" "RoleCrew \<noteq> RoleRefinery" "RoleRefinery \<noteq> RoleWitness"
    by (simp_all add: RoleDeacon_def RoleWitness_def RoleRefinery_def RoleCrew_def RolePolecat_def)
  from x have "t = Prefix x @ ''-'' @
        (if Role x = RoleWitness then ''witness''
         else if Role x = RoleRefinery then ''refinery''
         else if Role x = RoleCrew then ''crew-'' @ Name x
         else Name x)"
    unfolding parseRest_ok [OF ne nc] t using roles crew_drop [of rest]
    by (auto split: if_splits)
  then show ?thesis ..
qed simp_all

text \<open>
  C10. The address decoder gives the same result on a string and on that string with its
  surrounding white space stripped, and answers the empty-address error for the empty
  string and for any string made of white space runes only. The session-name decoder
  strips nothing: the text of a decoded rig-level session name is its prefix, a
  hyphen and the rest, byte for byte, so that white space around the name ends up in the
  prefix and in the name of the identity.
\<close>

theorem address_trimmed_session_verbatim:
  "ParseAddress reg s = ParseAddress reg (TrimSpace s) \<and>
   ((\<forall>w \<in> set ws. w \<in> set spaceRunes) \<longrightarrow> ParseAddress reg (concat ws) = Inl EmptyAddress) \<and>
   (ParseSessionName reg t = Inr x \<longrightarrow>
      t \<in> {''hq-mayor'', ''hq-deacon'', ''hq-boot'', ''hq-overseer''} \<or>
      t = Prefix x @ ''-'' @
        (if Role x = RoleWitness then ''witness''
         else if Role x = RoleRefinery then ''refinery''
         else if Role x = RoleCrew then ''crew-'' @ Name x
         else Name x)) \<and>
   ParseSessionName reg '' gt-witness '' =
     Inr \<lparr>Role = RolePolecat, Rig = RigForPrefix reg '' gt'', Name = ''witness '',
          Prefix = '' gt''\<rparr>"
proof (intro conjI impI)
  show "ParseAddress reg s = ParseAddress reg (TrimSpace s)"
    by (simp add: ParseAddress_trimmed)
  show "ParseAddress reg (concat ws) = Inl EmptyAddress" if "\<forall>w \<in> set ws. w \<in> set spaceRunes"
    using TrimSpace_spaces [OF that] by (simp add: ParseAddress_def)
  show "t \<in> {''hq-mayor'', ''hq-deacon'', ''hq-boot'', ''hq-overseer''} \<or>
      t = Prefix x @ ''-'' @
        (if Role x = RoleWitness then ''witness''
         else if Role x = RoleRefinery then ''refinery''
         else if Role x = RoleCrew then ''crew-'' @ Name x
         else Name x)" if "ParseSessionName reg t = Inr x"
    using that by (rule session_verbatim)
  show "ParseSessionName reg '' gt-witness '' =
     Inr \<lparr>Role = RolePolecat, Rig = RigForPrefix reg '' gt'', Name = ''witness '',
          Prefix = '' gt''\<rparr>"
    using ParseSessionName_rig [of "'' gt''" reg "''witness ''"]
    by (simp add: parseRest_def HasPrefix_def)
qed

theorem address_trimmed_session_verbatim_witness:
  "'' '' \<in> set spaceRunes \<and> [CHR 0x09] \<in> set spaceRunes \<and>
   [CHR 0xC2, CHR 0xA0] \<in> set spaceRunes \<and>
   ParseAddress testRegistry (concat ['' '', [CHR 0x09], [CHR 0xC2, CHR 0xA0]]) = Inl EmptyAddress \<and>
   ParseAddress testRegistry ''  gastown/witness '' = ParseAddress testRegistry ''gastown/witness'' \<and>
   ParseSessionName testRegistry ''gt-crew-max'' =
     Inr \<lparr>Role = RoleCrew, Rig = ''gastown'', Name = ''max'', Prefix = ''gt''\<rparr> \<and>
   ''gt-crew-max'' = ''gt'' @ ''-'' @ ''crew-'' @ ''max''"
proof -
  have sp: "\<forall>w \<in> set ['' '', [CHR 0x09], [CHR 0xC2, CHR 0xA0]]. w \<in> set spaceRunes"
    by (simp add: spaceRunes_def)
  have tr: "TrimSpace ''  gastown/witness '' = ''gastown/witness''"
    by code_simp
  have dec: "ParseSessionName testRegistry ''gt-crew-max'' =
     Inr \<lparr>Role = RoleCrew, Rig = ''gastown'', Name = ''max'', Prefix = ''gt''\<rparr>"
    using ParseSessionName_rig [of "''gt''" testRegistry "''crew-max''"]
    by (simp add: parseRest_def HasPrefix_def sliceFrom_def testRegistry_lookups)
  from address_trimmed_session_verbatim [of testRegistry "''  gastown/witness ''"
      "['' '', [CHR 0x09], [CHR 0xC2, CHR 0xA0]]" "''gt-crew-max''"
      "\<lparr>Role = RoleCrew, Rig = ''gastown'', Name = ''max'', Prefix = ''gt''\<rparr>"]
    sp tr dec
  show ?thesis by simp
qed

section \<open>Address decoding\<close>

lemma ParseAddress_stripped:
  "TrimSpace a = b \<Longrightarrow> ParseAddress reg a = ParseAddress reg b \<and> TrimSpace b = b"
  using ParseAddress_trimmed [of reg a] TrimSpace_idem [of a] by auto

text \<open>
  C8, as the claim states it: \<^verbatim>\<open>gastown/witness\<close> and \<^verbatim>\<open>gastown/refinery\<close> are
  two-segment addresses whose second segment is neither crew nor polecats, and they are
  decoded as the witness and the refinery of the rig, not as workers.
\<close>

theorem address_two_segments_counterexample:
  "ParseAddress testRegistry ''gastown/witness'' =
     Inr \<lparr>Role = RoleWitness, Rig = ''gastown'', Name = '''', Prefix = ''gt''\<rparr> \<and>
   ParseAddress testRegistry ''gastown/refinery'' =
     Inr \<lparr>Role = RoleRefinery, Rig = ''gastown'', Name = '''', Prefix = ''gt''\<rparr> \<and>
   RoleWitness \<noteq> RolePolecat \<and> RoleRefinery \<noteq> RolePolecat"
proof -
  have "TrimSpace ''gastown/witness'' = ''gastown/witness''"
    and "TrimSpace ''gastown/refinery'' = ''gastown/refinery''"
    by code_simp+
  then show ?thesis
    using ParseAddress_two [of "''gastown''" "''witness''" testRegistry]
      ParseAddress_two [of "''gastown''" "''refinery''" testRegistry]
    by (simp add: testRegistry_lookups RoleWitness_def RoleRefinery_def RolePolecat_def)
qed

text \<open>
  C8, amended. Let project and name be segments (no slash), the name not empty, and read
  the address after its surrounding white space is stripped. Then
  \<^verbatim>\<open>project/crew/name\<close> decodes to the Crew identity with that project and name,
  \<^verbatim>\<open>project/polecats/name\<close> to the Worker identity, \<^verbatim>\<open>project/crew\<close> and
  \<^verbatim>\<open>project/polecats\<close> fail as invalid addresses, \<^verbatim>\<open>overseer\<close> is rejected,
  \<^verbatim>\<open>project/witness\<close> and \<^verbatim>\<open>project/refinery\<close> decode to the two singleton roles,
  and any other \<^verbatim>\<open>project/name\<close> decodes to the Worker of that name. The Prefix field
  is what the registry returns for the project.
\<close>

theorem address_decoding:
  assumes "CHR ''/'' \<notin> set project" and "CHR ''/'' \<notin> set name" and "name \<noteq> []"
  shows "(TrimSpace a = project @ ''/crew/'' @ name \<longrightarrow>
        ParseAddress reg a =
          Inr \<lparr>Role = RoleCrew, Rig = project, Name = name, Prefix = PrefixForRig reg project\<rparr>) \<and>
     (TrimSpace a = project @ ''/polecats/'' @ name \<longrightarrow>
        ParseAddress reg a =
          Inr \<lparr>Role = RolePolecat, Rig = project, Name = name,
               Prefix = PrefixForRig reg project\<rparr>) \<and>
     (TrimSpace a = project @ ''/crew'' \<or> TrimSpace a = project @ ''/polecats'' \<longrightarrow>
        ParseAddress reg a = Inl (InvalidAddress (TrimSpace a))) \<and>
     (TrimSpace a = ''overseer'' \<longrightarrow> ParseAddress reg a = Inl OverseerNoSession) \<and>
     (TrimSpace a = project @ ''/witness'' \<longrightarrow>
        ParseAddress reg a =
          Inr \<lparr>Role = RoleWitness, Rig = project, Name = '''',
               Prefix = PrefixForRig reg project\<rparr>) \<and>
     (TrimSpace a = project @ ''/refinery'' \<longrightarrow>
        ParseAddress reg a =
          Inr \<lparr>Role = RoleRefinery, Rig = project, Name = '''',
               Prefix = PrefixForRig reg project\<rparr>) \<and>
     (TrimSpace a = project @ ''/'' @ name \<and>
      name \<notin> {''witness'', ''refinery'', ''crew'', ''polecats''} \<longrightarrow>
        ParseAddress reg a =
          Inr \<lparr>Role = RolePolecat, Rig = project, Name = name,
               Prefix = PrefixForRig reg project\<rparr>)"
proof (intro conjI impI)
  assume "TrimSpace a = project @ ''/crew/'' @ name"
  from ParseAddress_stripped [OF this, of reg]
    ParseAddress_three [OF assms(1) _ assms(2,3), of "''crew''" reg]
  show "ParseAddress reg a =
      Inr \<lparr>Role = RoleCrew, Rig = project, Name = name, Prefix = PrefixForRig reg project\<rparr>"
    by simp
next
  assume "TrimSpace a = project @ ''/polecats/'' @ name"
  from ParseAddress_stripped [OF this, of reg]
    ParseAddress_three [OF assms(1) _ assms(2,3), of "''polecats''" reg]
  show "ParseAddress reg a =
      Inr \<lparr>Role = RolePolecat, Rig = project, Name = name, Prefix = PrefixForRig reg project\<rparr>"
    by simp
next
  assume "TrimSpace a = project @ ''/crew'' \<or> TrimSpace a = project @ ''/polecats''"
  then show "ParseAddress reg a = Inl (InvalidAddress (TrimSpace a))"
  proof
    assume eq: "TrimSpace a = project @ ''/crew''"
    from ParseAddress_stripped [OF this, of reg]
      ParseAddress_two [OF assms(1), of "''crew''" reg]
    show ?thesis by (simp add: eq)
  next
    assume eq: "TrimSpace a = project @ ''/polecats''"
    from ParseAddress_stripped [OF this, of reg]
      ParseAddress_two [OF assms(1), of "''polecats''" reg]
    show ?thesis by (simp add: eq)
  qed
next
  assume "TrimSpace a = ''overseer''"
  from ParseAddress_stripped [OF this, of reg] show "ParseAddress reg a = Inl OverseerNoSession"
    by (simp add: ParseAddress_town)
next
  assume "TrimSpace a = project @ ''/witness''"
  from ParseAddress_stripped [OF this, of reg]
    ParseAddress_two [OF assms(1), of "''witness''" reg]
  show "ParseAddress reg a =
      Inr \<lparr>Role = RoleWitness, Rig = project, Name = '''', Prefix = PrefixForRig reg project\<rparr>"
    by simp
next
  assume "TrimSpace a = project @ ''/refinery''"
  from ParseAddress_stripped [OF this, of reg]
    ParseAddress_two [OF assms(1), of "''refinery''" reg]
  show "ParseAddress reg a =
      Inr \<lparr>Role = RoleRefinery, Rig = project, Name = '''', Prefix = PrefixForRig reg project\<rparr>"
    by simp
next
  assume h: "TrimSpace a = project @ ''/'' @ name \<and>
      name \<notin> {''witness'', ''refinery'', ''crew'', ''polecats''}"
  then have eq: "TrimSpace a = project @ ''/'' @ name" ..
  from ParseAddress_stripped [OF eq, of reg] h
    ParseAddress_two [OF assms(1,2,3), of reg]
  show "ParseAddress reg a =
      Inr \<lparr>Role = RolePolecat, Rig = project, Name = name, Prefix = PrefixForRig reg project\<rparr>"
    by simp
qed

theorem address_decoding_witness:
  "CHR ''/'' \<notin> set ''gastown'' \<and> CHR ''/'' \<notin> set ''nux'' \<and> ''nux'' \<noteq> [] \<and>
   TrimSpace '' gastown/crew/nux '' = ''gastown'' @ ''/crew/'' @ ''nux'' \<and>
   ParseAddress testRegistry '' gastown/crew/nux '' =
     Inr \<lparr>Role = RoleCrew, Rig = ''gastown'', Name = ''nux'', Prefix = ''gt''\<rparr> \<and>
   ParseAddress testRegistry ''gastown/polecats/nux'' =
     Inr \<lparr>Role = RolePolecat, Rig = ''gastown'', Name = ''nux'', Prefix = ''gt''\<rparr> \<and>
   ParseAddress testRegistry ''gastown/crew'' = Inl (InvalidAddress ''gastown/crew'') \<and>
   ParseAddress testRegistry ''overseer'' = Inl OverseerNoSession \<and>
   ParseAddress testRegistry ''gastown/witness'' =
     Inr \<lparr>Role = RoleWitness, Rig = ''gastown'', Name = [], Prefix = ''gt''\<rparr> \<and>
   ParseAddress testRegistry ''gastown/refinery'' =
     Inr \<lparr>Role = RoleRefinery, Rig = ''gastown'', Name = [], Prefix = ''gt''\<rparr> \<and>
   ''nux'' \<notin> {''witness'', ''refinery'', ''crew'', ''polecats''} \<and>
   ParseAddress testRegistry ''gastown/nux'' =
     Inr \<lparr>Role = RolePolecat, Rig = ''gastown'', Name = ''nux'', Prefix = ''gt''\<rparr>"
proof -
  have h: "CHR ''/'' \<notin> set ''gastown''" "CHR ''/'' \<notin> set ''nux''" "''nux'' \<noteq> []"
    by simp_all
  have tr: "TrimSpace '' gastown/crew/nux '' = ''gastown'' @ ''/crew/'' @ ''nux''"
    "TrimSpace ''gastown/polecats/nux'' = ''gastown'' @ ''/polecats/'' @ ''nux''"
    "TrimSpace ''gastown/crew'' = ''gastown'' @ ''/crew''"
    "TrimSpace ''overseer'' = ''overseer''"
    "TrimSpace ''gastown/witness'' = ''gastown'' @ ''/witness''"
    "TrimSpace ''gastown/refinery'' = ''gastown'' @ ''/refinery''"
    "TrimSpace ''gastown/nux'' = ''gastown'' @ ''/'' @ ''nux''"
    by code_simp+
  have other: "''nux'' \<notin> {''witness'', ''refinery'', ''crew'', ''polecats''}"
    by simp
  from address_decoding [OF h, of "'' gastown/crew/nux ''" testRegistry]
    address_decoding [OF h, of "''gastown/polecats/nux''" testRegistry]
    address_decoding [OF h, of "''gastown/crew''" testRegistry]
    address_decoding [OF h, of "''overseer''" testRegistry]
    address_decoding [OF h, of "''gastown/witness''" testRegistry]
    address_decoding [OF h, of "''gastown/refinery''" testRegistry]
    address_decoding [OF h, of "''gastown/nux''" testRegistry]
    tr h other
  show ?thesis
    by (simp add: testRegistry_lookups)
qed

section \<open>Round trips\<close>

lemmas Role_defs =
  RoleMayor_def RoleDeacon_def RoleWitness_def RoleRefinery_def RoleCrew_def RolePolecat_def

lemmas SessionName_defs =
  SessionName_def rigPrefix_def MayorSessionName_def DeaconSessionName_def BootSessionName_def
  WitnessSessionName_def RefinerySessionName_def CrewSessionName_def PolecatSessionName_def
  HQPrefix_def

lemma parseRest_shapes:
  assumes "parseRest reg t p rest = Inr x" and "rest \<noteq> []" and "rest \<noteq> ''crew-''"
  obtains
    (witness) "rest = ''witness''"
      "x = \<lparr>Role = RoleWitness, Rig = RigForPrefix reg p, Name = '''', Prefix = p\<rparr>"
  | (refinery) "rest = ''refinery''"
      "x = \<lparr>Role = RoleRefinery, Rig = RigForPrefix reg p, Name = '''', Prefix = p\<rparr>"
  | (boot) "rest = ''boot''"
      "x = \<lparr>Role = RoleDeacon, Rig = '''', Name = ''boot'', Prefix = p\<rparr>"
  | (crew) name where "rest = ''crew-'' @ name" "name \<noteq> []"
      "x = \<lparr>Role = RoleCrew, Rig = RigForPrefix reg p, Name = name, Prefix = p\<rparr>"
  | (polecat) "x = \<lparr>Role = RolePolecat, Rig = RigForPrefix reg p, Name = rest, Prefix = p\<rparr>"
proof -
  note x = assms(1) [unfolded parseRest_ok [OF assms(2,3)]]
  show thesis
  proof (cases "rest = ''witness'' \<or> rest = ''refinery'' \<or> rest = ''boot''")
    case True
    with x witness refinery boot show thesis
      by (auto split: if_splits)
  next
    case False
    show thesis
    proof (cases "HasPrefix rest ''crew-''")
      case True
      from crew_drop [OF True] assms(3) have "rest = ''crew-'' @ drop 5 rest" "drop 5 rest \<noteq> []"
        by auto
      moreover from x False True
      have "x = \<lparr>Role = RoleCrew, Rig = RigForPrefix reg p, Name = drop 5 rest, Prefix = p\<rparr>"
        by simp
      ultimately show thesis by (rule crew)
    next
      case nc: False
      with x False show thesis
        by (intro polecat) simp
    qed
  qed
qed

lemma session_roundtrip:
  assumes "ParseSessionName reg s = Inr x"
    and "Role x = RoleMayor \<longrightarrow> Name x = ''''"
    and "Role x = RoleDeacon \<and> Name x \<noteq> '''' \<longrightarrow> Prefix x = ''''"
  shows "SessionName reg x = s"
  using ParseSessionName_Inr_cases [OF assms(1)]
proof (elim disjE exE conjE)
  fix p rest
  assume s: "s = p @ ''-'' @ rest" and p: "p \<noteq> []"
    and ne: "rest \<noteq> []" and nc: "rest \<noteq> ''crew-''"
    and x: "parseRest reg s p rest = Inr x"
  from x ne nc show ?thesis
  proof (cases rule: parseRest_shapes)
    case boot
    with assms(3) p show ?thesis by (simp add: Role_defs)
  qed (use s p in \<open>simp_all add: SessionName_defs Role_defs\<close>)
qed (use assms(2) in \<open>simp_all add: SessionName_defs Role_defs\<close>)

lemma address_roundtrip:
  assumes "ParseSessionName reg s = Inr x"
    and "Role x = RoleMayor \<or> Role x = RoleDeacon \<longrightarrow> Name x = ''''"
    and "Role x \<noteq> RoleMayor \<and> Role x \<noteq> RoleDeacon \<longrightarrow>
      CHR ''/'' \<notin> set (Rig x) \<and> CHR ''/'' \<notin> set (Name x) \<and>
      TrimSpace (Address x) = Address x \<and> PrefixForRig reg (Rig x) = Prefix x"
  shows "ParseAddress reg (Address x) = Inr x"
  using ParseSessionName_Inr_cases [OF assms(1)]
proof (elim disjE exE conjE)
  fix p rest
  assume ne: "rest \<noteq> []" and nc: "rest \<noteq> ''crew-''"
    and x: "parseRest reg s p rest = Inr x"
  from x ne nc show ?thesis
  proof (cases rule: parseRest_shapes)
    case witness
    with assms(3) have h: "CHR ''/'' \<notin> set (Rig x)"
      "TrimSpace (Rig x @ ''/'' @ ''witness'') = Rig x @ ''/'' @ ''witness''"
      "PrefixForRig reg (Rig x) = Prefix x"
      by (simp_all add: Address_def Role_defs)
    from ParseAddress_two [OF h(1) _ _ h(2), of reg] h(3) witness show ?thesis
      by (simp add: Address_def Role_defs)
  next
    case refinery
    with assms(3) have h: "CHR ''/'' \<notin> set (Rig x)"
      "TrimSpace (Rig x @ ''/'' @ ''refinery'') = Rig x @ ''/'' @ ''refinery''"
      "PrefixForRig reg (Rig x) = Prefix x"
      by (simp_all add: Address_def Role_defs)
    from ParseAddress_two [OF h(1) _ _ h(2), of reg] h(3) refinery show ?thesis
      by (simp add: Address_def Role_defs)
  next
    case boot
    with assms(2) show ?thesis by (simp add: Role_defs)
  next
    case (crew name)
    with assms(3) have h: "CHR ''/'' \<notin> set (Rig x)" "CHR ''/'' \<notin> set (Name x)"
      "TrimSpace (Rig x @ ''/'' @ ''crew'' @ ''/'' @ Name x) = Rig x @ ''/'' @ ''crew'' @ ''/'' @ Name x"
      "PrefixForRig reg (Rig x) = Prefix x" "Name x \<noteq> []"
      by (simp_all add: Address_def Role_defs)
    from ParseAddress_three [OF h(1) _ h(2) h(5) h(3), of reg] h(4) crew show ?thesis
      by (simp add: Address_def Role_defs)
  next
    case polecat
    with assms(3) ne have h: "CHR ''/'' \<notin> set (Rig x)" "CHR ''/'' \<notin> set (Name x)"
      "TrimSpace (Rig x @ ''/'' @ ''polecats'' @ ''/'' @ Name x) =
        Rig x @ ''/'' @ ''polecats'' @ ''/'' @ Name x"
      "PrefixForRig reg (Rig x) = Prefix x" "Name x \<noteq> []"
      by (simp_all add: Address_def Role_defs)
    from ParseAddress_three [OF h(1) _ h(2) h(5) h(3), of reg] h(4) polecat show ?thesis
      by (simp add: Address_def Role_defs)
  qed
qed (use assms(2) in \<open>simp_all add: Address_def Role_defs ParseAddress_town\<close>)

text \<open>
  C1, as the claim states it, on the registry of the tests, where gt is registered.
  \<^verbatim>\<open>gt-boot\<close> decodes to the boot watchdog with Prefix gt; its session name is
  \<^verbatim>\<open>hq-boot\<close>, which decodes to an identity without prefix, and its address is
  \<^verbatim>\<open>deacon\<close>, which decodes to the deacon without a name. \<^verbatim>\<open>hq-overseer\<close> decodes to
  the mayor named overseer, whose session name \<^verbatim>\<open>hq-mayor\<close> decodes to the mayor
  without a name. The boot watchdog of \<^verbatim>\<open>hq-boot\<close> has the address \<^verbatim>\<open>deacon\<close> too. The
  worker of \<^verbatim>\<open>gt-a/b\<close> has an address of four segments, which the address decoder
  refuses.
\<close>

theorem roundtrip_counterexample:
  "IsKnownPrefix testRegistry ''gt'' \<and>
   ParseSessionName testRegistry ''gt-boot'' =
     Inr \<lparr>Role = RoleDeacon, Rig = '''', Name = ''boot'', Prefix = ''gt''\<rparr> \<and>
   ParseSessionName testRegistry
       (SessionName testRegistry \<lparr>Role = RoleDeacon, Rig = '''', Name = ''boot'', Prefix = ''gt''\<rparr>) =
     Inr \<lparr>Role = RoleDeacon, Rig = '''', Name = ''boot'', Prefix = ''''\<rparr> \<and>
   ParseAddress testRegistry
       (Address \<lparr>Role = RoleDeacon, Rig = '''', Name = ''boot'', Prefix = ''gt''\<rparr>) =
     Inr \<lparr>Role = RoleDeacon, Rig = '''', Name = '''', Prefix = ''''\<rparr> \<and>
   ParseSessionName testRegistry ''hq-overseer'' =
     Inr \<lparr>Role = RoleMayor, Rig = '''', Name = ''overseer'', Prefix = ''''\<rparr> \<and>
   ParseSessionName testRegistry
       (SessionName testRegistry \<lparr>Role = RoleMayor, Rig = '''', Name = ''overseer'', Prefix = ''''\<rparr>) =
     Inr \<lparr>Role = RoleMayor, Rig = '''', Name = '''', Prefix = ''''\<rparr> \<and>
   ParseSessionName testRegistry ''hq-boot'' =
     Inr \<lparr>Role = RoleDeacon, Rig = '''', Name = ''boot'', Prefix = ''''\<rparr> \<and>
   ParseAddress testRegistry
       (Address \<lparr>Role = RoleDeacon, Rig = '''', Name = ''boot'', Prefix = ''''\<rparr>) =
     Inr \<lparr>Role = RoleDeacon, Rig = '''', Name = '''', Prefix = ''''\<rparr> \<and>
   ParseSessionName testRegistry ''gt-a/b'' =
     Inr \<lparr>Role = RolePolecat, Rig = ''gastown'', Name = ''a/b'', Prefix = ''gt''\<rparr> \<and>
   ParseAddress testRegistry
       (Address \<lparr>Role = RolePolecat, Rig = ''gastown'', Name = ''a/b'', Prefix = ''gt''\<rparr>) =
     Inl (InvalidAddress ''gastown/polecats/a/b'') \<and>
   ParseSessionName testRegistry
       (SessionName testRegistry \<lparr>Role = RoleDeacon, Rig = '''', Name = ''boot'', Prefix = ''gt''\<rparr>) \<noteq>
     Inr \<lparr>Role = RoleDeacon, Rig = '''', Name = ''boot'', Prefix = ''gt''\<rparr> \<and>
   ParseAddress testRegistry
       (Address \<lparr>Role = RoleDeacon, Rig = '''', Name = ''boot'', Prefix = ''gt''\<rparr>) \<noteq>
     Inr \<lparr>Role = RoleDeacon, Rig = '''', Name = ''boot'', Prefix = ''gt''\<rparr> \<and>
   ParseSessionName testRegistry
       (SessionName testRegistry \<lparr>Role = RoleMayor, Rig = '''', Name = ''overseer'', Prefix = ''''\<rparr>) \<noteq>
     Inr \<lparr>Role = RoleMayor, Rig = '''', Name = ''overseer'', Prefix = ''''\<rparr> \<and>
   ParseAddress testRegistry
       (Address \<lparr>Role = RoleDeacon, Rig = '''', Name = ''boot'', Prefix = ''''\<rparr>) \<noteq>
     Inr \<lparr>Role = RoleDeacon, Rig = '''', Name = ''boot'', Prefix = ''''\<rparr>"
proof -
  have known: "IsKnownPrefix testRegistry ''gt''"
    by (simp add: testRegistry_def registerAll_def RegisterPrefix_def IsKnownPrefix_def)
  have boot: "ParseSessionName testRegistry ''gt-boot'' =
      Inr \<lparr>Role = RoleDeacon, Rig = '''', Name = ''boot'', Prefix = ''gt''\<rparr>"
    using ParseSessionName_rig [of "''gt''" testRegistry "''boot''"]
    by (simp add: parseRest_def)
  have slash: "ParseSessionName testRegistry ''gt-a/b'' =
      Inr \<lparr>Role = RolePolecat, Rig = ''gastown'', Name = ''a/b'', Prefix = ''gt''\<rparr>"
    using ParseSessionName_rig [of "''gt''" testRegistry "''a/b''"]
    by (simp add: parseRest_def HasPrefix_def testRegistry_lookups)
  have hq: "ParseSessionName testRegistry ''hq-boot'' =
      Inr \<lparr>Role = RoleDeacon, Rig = '''', Name = ''boot'', Prefix = ''''\<rparr>"
    "ParseSessionName testRegistry ''hq-mayor'' =
      Inr \<lparr>Role = RoleMayor, Rig = '''', Name = '''', Prefix = ''''\<rparr>"
    "ParseSessionName testRegistry ''hq-overseer'' =
      Inr \<lparr>Role = RoleMayor, Rig = '''', Name = ''overseer'', Prefix = ''''\<rparr>"
    using ParseSessionName_hq [of testRegistry "''boot''"]
      ParseSessionName_hq [of testRegistry "''mayor''"]
      ParseSessionName_hq [of testRegistry "''overseer''"]
    by simp_all
  have four: "ParseAddress testRegistry ''gastown/polecats/a/b'' =
      Inl (InvalidAddress ''gastown/polecats/a/b'')"
  proof -
    have "TrimSpace ''gastown/polecats/a/b'' = ''gastown/polecats/a/b''"
      by code_simp
    moreover have "TrimSuffix ''gastown/polecats/a/b'' ''/'' = ''gastown/polecats/a/b''"
      by code_simp
    ultimately show ?thesis
      by (simp add: ParseAddress_def Let_def)
  qed
  from known boot slash hq four show ?thesis
    by (simp add: SessionName_defs Address_def Role_defs ParseAddress_town)
qed

text \<open>
  C1, amended. Take an identity produced by a successful session-name decode. Unless it
  is the overseer alias (a mayor that carries a name) or a boot watchdog decoded under a
  rig prefix (a named deacon that carries a prefix, as from \<^verbatim>\<open>gt-boot\<close>), its session
  name is the string it was decoded from, so decoding the session name again yields the
  same identity; this holds for \<^verbatim>\<open>hq-boot\<close> and whether or not the prefix is
  registered. Decoding its address yields the same identity when the identity is a town
  role without a name or a rig-level role whose rig name and agent name contain no
  slash, whose address has no surrounding white space, and whose rig name the registry
  maps back to the identity's prefix.
\<close>

theorem roundtrip:
  assumes "ParseSessionName reg s = Inr x"
  shows "((Role x = RoleMayor \<longrightarrow> Name x = '''') \<and>
      (Role x = RoleDeacon \<and> Name x \<noteq> '''' \<longrightarrow> Prefix x = '''') \<longrightarrow>
        SessionName reg x = s \<and> ParseSessionName reg (SessionName reg x) = Inr x) \<and>
     ((Role x = RoleMayor \<or> Role x = RoleDeacon \<longrightarrow> Name x = '''') \<and>
      (Role x \<noteq> RoleMayor \<and> Role x \<noteq> RoleDeacon \<longrightarrow>
         CHR ''/'' \<notin> set (Rig x) \<and> CHR ''/'' \<notin> set (Name x) \<and>
         TrimSpace (Address x) = Address x \<and> PrefixForRig reg (Rig x) = Prefix x) \<longrightarrow>
        ParseAddress reg (Address x) = Inr x)"
proof (intro conjI impI)
  assume h: "(Role x = RoleMayor \<longrightarrow> Name x = '''') \<and>
      (Role x = RoleDeacon \<and> Name x \<noteq> '''' \<longrightarrow> Prefix x = '''')"
  then have m: "Role x = RoleMayor \<longrightarrow> Name x = ''''"
    and d: "Role x = RoleDeacon \<and> Name x \<noteq> '''' \<longrightarrow> Prefix x = ''''"
    by simp_all
  show name: "SessionName reg x = s"
    using assms m d by (rule session_roundtrip)
  show "ParseSessionName reg (SessionName reg x) = Inr x"
    unfolding name by (rule assms)
next
  assume h: "(Role x = RoleMayor \<or> Role x = RoleDeacon \<longrightarrow> Name x = '''') \<and>
      (Role x \<noteq> RoleMayor \<and> Role x \<noteq> RoleDeacon \<longrightarrow>
         CHR ''/'' \<notin> set (Rig x) \<and> CHR ''/'' \<notin> set (Name x) \<and>
         TrimSpace (Address x) = Address x \<and> PrefixForRig reg (Rig x) = Prefix x)"
  then have town: "Role x = RoleMayor \<or> Role x = RoleDeacon \<longrightarrow> Name x = ''''"
    and rig: "Role x \<noteq> RoleMayor \<and> Role x \<noteq> RoleDeacon \<longrightarrow>
         CHR ''/'' \<notin> set (Rig x) \<and> CHR ''/'' \<notin> set (Name x) \<and>
         TrimSpace (Address x) = Address x \<and> PrefixForRig reg (Rig x) = Prefix x"
    by simp_all
  show "ParseAddress reg (Address x) = Inr x"
    using assms town rig by (rule address_roundtrip)
qed

theorem roundtrip_witness:
  "ParseSessionName testRegistry ''gt-crew-max'' =
     Inr \<lparr>Role = RoleCrew, Rig = ''gastown'', Name = ''max'', Prefix = ''gt''\<rparr> \<and>
   SessionName testRegistry \<lparr>Role = RoleCrew, Rig = ''gastown'', Name = ''max'', Prefix = ''gt''\<rparr> =
     ''gt-crew-max'' \<and>
   Address \<lparr>Role = RoleCrew, Rig = ''gastown'', Name = ''max'', Prefix = ''gt''\<rparr> =
     ''gastown/crew/max'' \<and>
   TrimSpace ''gastown/crew/max'' = ''gastown/crew/max'' \<and>
   PrefixForRig testRegistry ''gastown'' = ''gt'' \<and>
   ParseAddress testRegistry ''gastown/crew/max'' =
     Inr \<lparr>Role = RoleCrew, Rig = ''gastown'', Name = ''max'', Prefix = ''gt''\<rparr> \<and>
   ParseSessionName testRegistry ''hq-boot'' =
     Inr \<lparr>Role = RoleDeacon, Rig = '''', Name = ''boot'', Prefix = ''''\<rparr> \<and>
   SessionName testRegistry \<lparr>Role = RoleDeacon, Rig = '''', Name = ''boot'', Prefix = ''''\<rparr> =
     ''hq-boot''"
proof -
  let ?x = "\<lparr>Role = RoleCrew, Rig = ''gastown'', Name = ''max'', Prefix = ''gt''\<rparr>"
  let ?b = "\<lparr>Role = RoleDeacon, Rig = '''', Name = ''boot'', Prefix = ''''\<rparr>"
  have dec: "ParseSessionName testRegistry ''gt-crew-max'' = Inr ?x"
    using ParseSessionName_rig [of "''gt''" testRegistry "''crew-max''"]
    by (simp add: parseRest_def HasPrefix_def sliceFrom_def testRegistry_lookups)
  have plain: "(Role ?x = RoleMayor \<longrightarrow> Name ?x = '''') \<and>
      (Role ?x = RoleDeacon \<and> Name ?x \<noteq> '''' \<longrightarrow> Prefix ?x = '''')"
    by (simp add: Role_defs)
  have addr: "Address ?x = ''gastown/crew/max''"
    by (simp add: Address_def Role_defs)
  have tr: "TrimSpace ''gastown/crew/max'' = ''gastown/crew/max''"
    by code_simp
  have ok: "(Role ?x = RoleMayor \<or> Role ?x = RoleDeacon \<longrightarrow> Name ?x = '''') \<and>
      (Role ?x \<noteq> RoleMayor \<and> Role ?x \<noteq> RoleDeacon \<longrightarrow>
         CHR ''/'' \<notin> set (Rig ?x) \<and> CHR ''/'' \<notin> set (Name ?x) \<and>
         TrimSpace (Address ?x) = Address ?x \<and> PrefixForRig testRegistry (Rig ?x) = Prefix ?x)"
    using addr tr by (simp add: testRegistry_lookups Role_defs)
  have decb: "ParseSessionName testRegistry ''hq-boot'' = Inr ?b"
    using ParseSessionName_hq [of testRegistry "''boot''"] by simp
  have plainb: "(Role ?b = RoleMayor \<longrightarrow> Name ?b = '''') \<and>
      (Role ?b = RoleDeacon \<and> Name ?b \<noteq> '''' \<longrightarrow> Prefix ?b = '''')"
    by (simp add: Role_defs)
  from roundtrip [OF dec] roundtrip [OF decb] plain plainb ok dec decb addr tr show ?thesis
    by (simp add: testRegistry_lookups)
qed

end
